theory Spec2Isabelle
  imports Complex_Main "HOL-Library.Char_ord" "HOL-Library.List_Lexorder" "HOL-Library.Product_Lexorder"
begin

section \<open>Support tickets SLA analytics: a model of \<open>src/app/app.py\<close>\<close>

text \<open>
  The program keeps two pandas tables on disk (tickets and SLA targets), merges uploaded
  ticket batches into the first, and computes compliance metrics over their join.
  The model follows the source function by function. Three library boundaries are fixed
  here once:
  \<^item> a table is the list of its rows, in row order, together with the list of its column
    names;
  \<^item> a null cell (\<open>NaN\<close>, \<open>NaT\<close>, \<open>None\<close>) of a text or timestamp column is \<open>None\<close>;
  \<^item> a float64 cell is a value of \<open>npfloat\<close> below.
\<close>

subsection \<open>float64 values\<close>

text \<open>
  A float64 is a finite number, one of the two infinities, or NaN. The special values
  follow IEEE 754 as numpy computes them (no exception on division by zero, NaN compares
  false with everything). A finite result beyond the largest float64 overflows to an
  infinity. A finite result in range is kept exact: rounding to 53 bits and the sign of
  zero are not modelled.
\<close>

datatype npfloat = Fin real | PInf | NInf | NaN

definition FLOAT_MAX :: real where
  "FLOAT_MAX = 2 ^ 1024 - 2 ^ 971"

definition overflow :: "real \<Rightarrow> npfloat" where
  "overflow r = (if r > FLOAT_MAX then PInf else if r < - FLOAT_MAX then NInf else Fin r)"

fun fneg :: "npfloat \<Rightarrow> npfloat" where
  "fneg (Fin x) = Fin (- x)"
| "fneg PInf = NInf"
| "fneg NInf = PInf"
| "fneg NaN = NaN"

fun fadd :: "npfloat \<Rightarrow> npfloat \<Rightarrow> npfloat" where
  "fadd NaN b = NaN"
| "fadd a NaN = NaN"
| "fadd (Fin x) (Fin y) = overflow (x + y)"
| "fadd (Fin x) b = b"
| "fadd a (Fin y) = a"
| "fadd PInf PInf = PInf"
| "fadd NInf NInf = NInf"
| "fadd PInf NInf = NaN"
| "fadd NInf PInf = NaN"

definition fsub :: "npfloat \<Rightarrow> npfloat \<Rightarrow> npfloat" where
  "fsub a b = fadd a (fneg b)"

text \<open>The sign of an infinite operand times the sign of a finite one.\<close>

definition signed_inf :: "bool \<Rightarrow> real \<Rightarrow> npfloat" where
  "signed_inf positive y =
     (if y = 0 then NaN else if positive = (0 < y) then PInf else NInf)"

fun fmul :: "npfloat \<Rightarrow> npfloat \<Rightarrow> npfloat" where
  "fmul NaN b = NaN"
| "fmul a NaN = NaN"
| "fmul (Fin x) (Fin y) = overflow (x * y)"
| "fmul (Fin x) PInf = signed_inf True x"
| "fmul (Fin x) NInf = signed_inf False x"
| "fmul PInf (Fin y) = signed_inf True y"
| "fmul NInf (Fin y) = signed_inf False y"
| "fmul PInf PInf = PInf"
| "fmul NInf NInf = PInf"
| "fmul PInf NInf = NInf"
| "fmul NInf PInf = NInf"

fun fdiv :: "npfloat \<Rightarrow> npfloat \<Rightarrow> npfloat" where
  "fdiv NaN b = NaN"
| "fdiv a NaN = NaN"
| "fdiv (Fin x) (Fin y) = (if y = 0 then signed_inf True x else overflow (x / y))"
| "fdiv (Fin x) b = Fin 0"
| "fdiv PInf (Fin y) = (if y = 0 then PInf else signed_inf True y)"
| "fdiv NInf (Fin y) = (if y = 0 then NInf else signed_inf False y)"
| "fdiv a b = NaN"

text \<open>The comparisons \<open><\<close> and \<open>\<le>\<close> of float64: false as soon as one side is NaN.\<close>

fun fless :: "npfloat \<Rightarrow> npfloat \<Rightarrow> bool" where
  "fless NaN b = False"
| "fless a NaN = False"
| "fless (Fin x) (Fin y) = (x < y)"
| "fless a NInf = False"
| "fless PInf b = False"
| "fless a b = True"

fun fle :: "npfloat \<Rightarrow> npfloat \<Rightarrow> bool" where
  "fle NaN b = False"
| "fle a NaN = False"
| "fle (Fin x) (Fin y) = (x \<le> y)"
| "fle NInf b = True"
| "fle a PInf = True"
| "fle a b = False"

definition isnan :: "npfloat \<Rightarrow> bool" where
  "isnan a = (a = NaN)"

definition isfinite :: "npfloat \<Rightarrow> bool" where
  "isfinite a = (case a of Fin x \<Rightarrow> True | _ \<Rightarrow> False)"

text \<open>
  \<open>np.clip(x, lo, None)\<close> on a Series is \<open>Series.clip(lower=lo)\<close>: a missing value stays
  missing, a value below the bound becomes the bound.
\<close>

definition clip_lower :: "npfloat \<Rightarrow> npfloat \<Rightarrow> npfloat" where
  "clip_lower x lo = (if isnan x then NaN else if fless x lo then lo else x)"

text \<open>\<open>np.where(cond, a, b)\<close>, one element at a time.\<close>

definition np_where :: "bool \<Rightarrow> npfloat \<Rightarrow> npfloat \<Rightarrow> npfloat" where
  "np_where c a b = (if c then a else b)"

subsection \<open>Timestamps\<close>

text \<open>
  A \<open>datetime64[ns]\<close> cell is the number of nanoseconds since the epoch, or \<open>None\<close> for
  \<open>NaT\<close>. The difference of two cells is a timedelta, \<open>NaT\<close> as soon as one side is;
  \<open>.dt.total_seconds() / 60.0\<close> turns it into float minutes, NaN for \<open>NaT\<close>.
\<close>

type_synonym timestamp = "int option"

definition td_sub :: "timestamp \<Rightarrow> timestamp \<Rightarrow> int option" where
  "td_sub a b = (case (a, b) of (Some x, Some y) \<Rightarrow> Some (x - y) | _ \<Rightarrow> None)"

definition total_seconds :: "int option \<Rightarrow> npfloat" where
  "total_seconds d = (case d of None \<Rightarrow> NaN | Some n \<Rightarrow> overflow (real_of_int n / 10 ^ 9))"

definition minutes_between :: "timestamp \<Rightarrow> timestamp \<Rightarrow> npfloat" where
  "minutes_between a b = fdiv (total_seconds (td_sub a b)) (Fin 60)"

text \<open>\<open>a <= b\<close> on two timestamp cells: false as soon as one side is \<open>NaT\<close>.\<close>

definition ts_le :: "timestamp \<Rightarrow> timestamp \<Rightarrow> bool" where
  "ts_le a b = (case (a, b) of (Some x, Some y) \<Rightarrow> x \<le> y | _ \<Rightarrow> False)"

text \<open>
  The cells are int64: pandas cannot hold a timestamp outside this range. The dates that
  \<open>upload_tickets\<close> parses have a two-digit year, so that their differences are far
  from the int64 range, where pandas would raise.
\<close>

definition int64 :: "int \<Rightarrow> bool" where
  "int64 n = (- (2 ^ 63) \<le> n \<and> n < 2 ^ 63)"

definition int64_stamp :: "timestamp \<Rightarrow> bool" where
  "int64_stamp a = (case a of None \<Rightarrow> True | Some n \<Rightarrow> int64 n)"

definition ns_minutes :: "int \<Rightarrow> real" where
  "ns_minutes n = real_of_int n / 10 ^ 9 / 60"

definition notna :: "'a option \<Rightarrow> bool" where
  "notna a = (a \<noteq> None)"

subsection \<open>The two persisted tables\<close>

text \<open>
  A stored ticket row has the columns that \<open>upload_tickets\<close> writes. \<open>crm_company\<close> is
  always text (it went through \<open>astype(str)\<close>); \<open>reopen_count\<close> is an integer column;
  \<open>resolution_minutes\<close> is a float column.
\<close>

record ticket =
  issue_key :: "string option"
  severity :: "string option"
  status :: "string option"
  fr_target :: timestamp
  fr_actual :: timestamp
  created :: timestamp
  updated :: timestamp
  resolved :: timestamp
  assignee :: "string option"
  environment :: "string option"
  product :: "string option"
  summary :: "string option"
  crm_company :: string
  reopen_count :: int
  resolution_minutes :: npfloat

record ticket_table =
  t_columns :: "string list"
  t_rows :: "ticket list"

text \<open>
  An SLA row is what \<open>upload_sla\<close> pivots to: one row per company and severity, with the
  two targets in minutes, NaN where the matrix had no number.
\<close>

record sla_row =
  sla_company :: string
  sla_severity :: "string option"
  first_response :: npfloat
  resolution :: npfloat

record sla_table =
  s_columns :: "string list"
  s_rows :: "sla_row list"

text \<open>The data directory: each table is \<open>None\<close> while its parquet file does not exist.\<close>

record store =
  tickets_file :: "ticket_table option"
  sla_file :: "sla_table option"

datatype error =
    UnsupportedFileType
  | MissingColumns "string list"
  | DataNotReady
  | KeyError string
  | IntCastingNaNError

definition int64_stamps :: "'a ticket_scheme \<Rightarrow> bool" where
  "int64_stamps t =
     (int64_stamp (fr_target t) \<and> int64_stamp (fr_actual t) \<and> int64_stamp (created t))"

subsection \<open>The join and the metrics (\<open>_load_joined\<close>)\<close>

record joined = ticket +
  j_first_response :: npfloat
  j_resolution :: npfloat
  first_response_within_sla :: bool
  first_response_exceed_pct :: npfloat
  resolution_within_sla :: bool
  resolution_exceed_pct :: npfloat

text \<open>
  \<open>t.merge(s, how="left", on=["crm_company","severity"])\<close>: every ticket row, in order,
  once for each SLA row with the same key (pandas matches a null key with a null key),
  and once with null SLA fields when no SLA row matches.
\<close>

definition sla_matches :: "ticket \<Rightarrow> sla_row list \<Rightarrow> sla_row list" where
  "sla_matches t ss =
     filter (\<lambda>s. sla_company s = crm_company t \<and> sla_severity s = severity t) ss"

definition merged_targets :: "ticket \<Rightarrow> sla_row list \<Rightarrow> (npfloat \<times> npfloat) list" where
  "merged_targets t ss =
     (case sla_matches t ss of
        [] \<Rightarrow> [(NaN, NaN)]
      | ms \<Rightarrow> map (\<lambda>s. (first_response s, resolution s)) ms)"

text \<open>The four computed columns of one merged row, lines 183 to 201 of the source.\<close>

definition fr_within :: "'a ticket_scheme \<Rightarrow> bool" where
  "fr_within t =
     (ts_le (fr_actual t) (fr_target t) \<and> notna (fr_actual t) \<and> notna (fr_target t))"

definition delta_fr :: "'a ticket_scheme \<Rightarrow> npfloat" where
  "delta_fr t = minutes_between (fr_actual t) (fr_target t)"

definition target_fr :: "'a ticket_scheme \<Rightarrow> npfloat" where
  "target_fr t = minutes_between (fr_target t) (created t)"

definition fr_exceed_pct :: "'a ticket_scheme \<Rightarrow> npfloat" where
  "fr_exceed_pct t =
     np_where (fless (Fin 0) (delta_fr t))
       (fmul (fdiv (delta_fr t) (clip_lower (target_fr t) (Fin 1))) (Fin 100))
       (Fin 0)"

definition res_within :: "'a ticket_scheme \<Rightarrow> npfloat \<Rightarrow> bool" where
  "res_within t res = fle (resolution_minutes t) res"

definition delta_res :: "'a ticket_scheme \<Rightarrow> npfloat \<Rightarrow> npfloat" where
  "delta_res t res = fsub (resolution_minutes t) res"

definition res_exceed_pct :: "'a ticket_scheme \<Rightarrow> npfloat \<Rightarrow> npfloat" where
  "res_exceed_pct t res =
     np_where (fless (Fin 0) (delta_res t res))
       (fmul (fdiv (delta_res t res) (clip_lower res (Fin 1))) (Fin 100))
       (Fin 0)"

definition join_row :: "ticket \<Rightarrow> npfloat \<times> npfloat \<Rightarrow> joined" where
  "join_row t tg =
     ticket.extend t
       \<lparr> j_first_response = fst tg,
         j_resolution = snd tg,
         first_response_within_sla = fr_within t,
         first_response_exceed_pct = fr_exceed_pct t,
         resolution_within_sla = res_within t (snd tg),
         resolution_exceed_pct = res_exceed_pct t (snd tg) \<rparr>"

definition merge_left :: "ticket list \<Rightarrow> sla_row list \<Rightarrow> joined list" where
  "merge_left ts ss = concat (map (\<lambda>t. map (join_row t) (merged_targets t ss)) ts)"

text \<open>
  \<open>_load_joined\<close> fails with the 400 error while one of the files is missing. The merge
  needs both key columns in the SLA table, and line 195 reads the column \<open>resolution\<close>,
  which the SLA table has only when the uploaded matrix had a resolution column:
  a missing column is a \<open>KeyError\<close>.
\<close>

definition load_joined :: "store \<Rightarrow> error + joined list" where
  "load_joined st =
     (case (tickets_file st, sla_file st) of
        (Some t, Some s) \<Rightarrow>
          if ''crm_company'' \<notin> set (s_columns s) then Inl (KeyError ''crm_company'')
          else if ''severity'' \<notin> set (s_columns s) then Inl (KeyError ''severity'')
          else if ''resolution'' \<notin> set (s_columns s) then Inl (KeyError ''resolution'')
          else Inr (merge_left (t_rows t) (s_rows s))
      | _ \<Rightarrow> Inl DataNotReady)"

subsection \<open>Company names\<close>

text \<open>
  Both uploads normalise the company column with
  \<open>.astype(str).str.strip().str.replace(r"\s+", " ", regex=True)\<close>.
  A \<open>char\<close> stands for a code point below 256. \<open>str.strip()\<close> and the class \<open>\s\<close> of a
  \<open>str\<close> pattern use the same set of white space, the one of \<open>str.isspace()\<close>: below 256
  these are the code points 9 to 13, 28 to 32, 133 and 160.
\<close>

definition isspace :: "char \<Rightarrow> bool" where
  "isspace c = ((of_char c :: nat) \<in> {9, 10, 11, 12, 13, 28, 29, 30, 31, 32, 133, 160})"

text \<open>\<open>astype(str)\<close>: a missing cell becomes the text \<open>nan\<close>.\<close>

definition astype_str :: "string option \<Rightarrow> string" where
  "astype_str c = (case c of None \<Rightarrow> ''nan'' | Some s \<Rightarrow> s)"

definition strip :: "string \<Rightarrow> string" where
  "strip s = rev (dropWhile isspace (rev (dropWhile isspace s)))"

text \<open>\<open>re.sub(r"\s+", " ", s)\<close>: every maximal run of white space becomes one space.\<close>

function collapse_spaces :: "string \<Rightarrow> string" where
  "collapse_spaces [] = []"
| "collapse_spaces (c # cs) =
     (if isspace c then CHR '' '' # collapse_spaces (dropWhile isspace cs)
      else c # collapse_spaces cs)"
  by pat_completeness auto
termination
  by (relation "measure length") (auto simp: less_Suc_eq_le length_dropWhile_le)

definition normalize_company :: "string option \<Rightarrow> string" where
  "normalize_company c = collapse_spaces (strip (astype_str c))"

text \<open>A text without white space at its start, and at its end.\<close>

definition no_lead :: "string \<Rightarrow> bool" where
  "no_lead s = (s = [] \<or> \<not> isspace (hd s))"

definition no_trail :: "string \<Rightarrow> bool" where
  "no_trail s = (s = [] \<or> \<not> isspace (last s))"

subsection \<open>The ticket upload (\<open>upload_tickets\<close>)\<close>

definition EXPECTED_TICKET_COLS :: "string list" where
  "EXPECTED_TICKET_COLS =
     [''Issue key'', ''Issue id'', ''Custom field (Severity)'', ''Status'',
      ''Custom field (First Response SLA Target Date)'',
      ''Custom field (First Response SLA Actual Date)'',
      ''Created'', ''Updated'', ''Resolved'', ''Assignee'',
      ''Custom field (Environment)'', ''Custom field (Product)'',
      ''Summary'', ''Custom field (CRM Company)'', ''Custom field (Reopen Count)'']"

definition REQUIRED_TICKET_COLS :: "string list" where
  "REQUIRED_TICKET_COLS =
     [''Issue key'', ''Custom field (Severity)'', ''Status'',
      ''Custom field (First Response SLA Target Date)'',
      ''Custom field (First Response SLA Actual Date)'',
      ''Created'', ''Resolved'', ''Assignee'',
      ''Custom field (Product)'', ''Custom field (CRM Company)'',
      ''Custom field (Reopen Count)'']"

definition NORMALIZE_MAP :: "(string \<times> string) list" where
  "NORMALIZE_MAP =
     [(''Issue key'', ''issue_key''),
      (''Custom field (Severity)'', ''severity''),
      (''Status'', ''status''),
      (''Custom field (First Response SLA Target Date)'', ''fr_target''),
      (''Custom field (First Response SLA Actual Date)'', ''fr_actual''),
      (''Created'', ''created''),
      (''Updated'', ''updated''),
      (''Resolved'', ''resolved''),
      (''Assignee'', ''assignee''),
      (''Custom field (Environment)'', ''environment''),
      (''Custom field (Product)'', ''product''),
      (''Summary'', ''summary''),
      (''Custom field (CRM Company)'', ''crm_company''),
      (''Custom field (Reopen Count)'', ''reopen_count'')]"

text \<open>
  The uploaded file after \<open>pd.read_csv\<close>: its name, its header and its rows. The parsers
  of pandas are not part of the repository, so a cell is given by what they read in it:
  a text cell by its text (\<open>None\<close> when empty), a cell of one of the five date columns by the
  timestamp that \<open>pd.to_datetime(format="%d/%b/%y %I:%M %p", errors="coerce")\<close> reads
  (\<open>None\<close> for \<open>NaT\<close>, which is also what an unparseable date becomes), and the reopen count
  by one of three cases: empty, a text that is not a number, or a number. The field of a
  column that the header lacks is never read. The column \<open>Issue id\<close> is kept by name only:
  nothing reads its cells.
\<close>

datatype num_cell = Blank | NotNumeric string | Numeric npfloat

record csv_row =
  c_issue_key :: "string option"
  c_severity :: "string option"
  c_status :: "string option"
  c_fr_target :: timestamp
  c_fr_actual :: timestamp
  c_created :: timestamp
  c_updated :: timestamp
  c_resolved :: timestamp
  c_assignee :: "string option"
  c_environment :: "string option"
  c_product :: "string option"
  c_summary :: "string option"
  c_crm_company :: "string option"
  c_reopen_count :: num_cell

record upload =
  filename :: string
  columns :: "string list"
  rows :: "csv_row list"

record summary_counts =
  tickets_stored :: nat
  new_rows :: nat

text \<open>\<open>file.filename.lower().endswith(".csv")\<close>; only the letters A to Z matter here.\<close>

definition lower :: "string \<Rightarrow> string" where
  "lower s =
     map (\<lambda>c. if 65 \<le> (of_char c :: nat) \<and> (of_char c :: nat) \<le> 90
              then char_of (of_char c + (32 :: nat)) else c) s"

definition endswith :: "string \<Rightarrow> string \<Rightarrow> bool" where
  "endswith s suffix =
     (length suffix \<le> length s \<and> drop (length s - length suffix) s = suffix)"

text \<open>\<open>sorted(set(REQUIRED_TICKET_COLS) - set(df.columns))\<close>\<close>

definition missing_columns :: "string list \<Rightarrow> string list" where
  "missing_columns cols = sorted_list_of_set (set REQUIRED_TICKET_COLS - set cols)"

text \<open>
  Line 103: the expected columns that the header has, in the order of
  \<open>EXPECTED_TICKET_COLS\<close>, renamed by \<open>NORMALIZE_MAP\<close>.
\<close>

definition rename :: "string \<Rightarrow> string" where
  "rename c = (case map_of NORMALIZE_MAP c of Some n \<Rightarrow> n | None \<Rightarrow> c)"

definition kept_columns :: "string list \<Rightarrow> string list" where
  "kept_columns cols = map rename (filter (\<lambda>c. c \<in> set cols) EXPECTED_TICKET_COLS)"

text \<open>Line 106: \<open>df[df["status"].eq("Permanently Closed")]\<close>\<close>

definition closed_rows :: "csv_row list \<Rightarrow> csv_row list" where
  "closed_rows rs = filter (\<lambda>r. c_status r = Some ''Permanently Closed'') rs"

text \<open>
  Line 109: \<open>pd.to_numeric(..., errors="coerce").fillna(0).astype(int)\<close>. The cast
  truncates towards zero and raises on an infinity. A finite value outside int64 is cast
  without a check, with the result of the processor's conversion instruction; the model
  gives the one of x86-64, the least int64.
\<close>

definition to_numeric :: "num_cell \<Rightarrow> npfloat" where
  "to_numeric c = (case c of Blank \<Rightarrow> NaN | NotNumeric s \<Rightarrow> NaN | Numeric x \<Rightarrow> x)"

definition fillna :: "npfloat \<Rightarrow> npfloat \<Rightarrow> npfloat" where
  "fillna v x = (if isnan x then v else x)"

definition trunc :: "real \<Rightarrow> int" where
  "trunc x = (if 0 \<le> x then \<lfloor>x\<rfloor> else \<lceil>x\<rceil>)"

definition astype_int :: "npfloat \<Rightarrow> error + int" where
  "astype_int x =
     (case x of
        Fin r \<Rightarrow> Inr (if int64 (trunc r) then trunc r else - (2 ^ 63))
      | _ \<Rightarrow> Inl IntCastingNaNError)"

definition reopen_of :: "num_cell \<Rightarrow> error + int" where
  "reopen_of c = astype_int (fillna (Fin 0) (to_numeric c))"

text \<open>The casts of a whole column: the first failure is the exception.\<close>

fun cast_column :: "num_cell list \<Rightarrow> error + int list" where
  "cast_column [] = Inr []"
| "cast_column (c # cs) =
     (case reopen_of c of
        Inl e \<Rightarrow> Inl e
      | Inr n \<Rightarrow> (case cast_column cs of Inl e \<Rightarrow> Inl e | Inr ns \<Rightarrow> Inr (n # ns)))"

text \<open>
  One row of \<open>df\<close> after line 110. The three optional columns are null when the header
  lacks them, as they are after the concatenation with a table that has them.
\<close>

definition optional :: "string list \<Rightarrow> string \<Rightarrow> 'a option \<Rightarrow> 'a option" where
  "optional cols c v = (if c \<in> set cols then v else None)"

definition to_ticket :: "string list \<Rightarrow> csv_row \<Rightarrow> int \<Rightarrow> ticket" where
  "to_ticket cols r n =
     \<lparr> issue_key = c_issue_key r,
       severity = c_severity r,
       status = c_status r,
       fr_target = c_fr_target r,
       fr_actual = c_fr_actual r,
       created = c_created r,
       updated = optional cols ''Updated'' (c_updated r),
       resolved = c_resolved r,
       assignee = c_assignee r,
       environment = optional cols ''Custom field (Environment)'' (c_environment r),
       product = c_product r,
       summary = optional cols ''Summary'' (c_summary r),
       crm_company = normalize_company (c_crm_company r),
       reopen_count = n,
       resolution_minutes = minutes_between (c_resolved r) (c_created r) \<rparr>"

definition new_tickets :: "upload \<Rightarrow> error + ticket list" where
  "new_tickets u =
     (let rs = closed_rows (rows u) in
      case cast_column (map c_reopen_count rs) of
        Inl e \<Rightarrow> Inl e
      | Inr ns \<Rightarrow> Inr (map (\<lambda>(r, n). to_ticket (columns u) r n) (zip rs ns)))"

text \<open>
  Lines 113 to 115. \<open>cur\<close> is the stored table, or an empty frame. The concatenation has
  the columns of \<open>cur\<close> followed by the new ones of \<open>df\<close>. \<open>sort_values\<close> on two columns is
  a stable sort with nulls last in each column; \<open>drop_duplicates(keep="last")\<close> keeps,
  of the rows with one key, the last one, null keys being equal to each other.
\<close>

definition cur_table :: "store \<Rightarrow> ticket_table" where
  "cur_table st =
     (case tickets_file st of None \<Rightarrow> \<lparr> t_columns = [], t_rows = [] \<rparr> | Some t \<Rightarrow> t)"

definition concat_columns :: "string list \<Rightarrow> string list \<Rightarrow> string list" where
  "concat_columns a b = a @ filter (\<lambda>c. c \<notin> set a) b"

definition key_order :: "string option \<Rightarrow> bool \<times> string" where
  "key_order k = (case k of None \<Rightarrow> (True, []) | Some s \<Rightarrow> (False, s))"

definition stamp_order :: "timestamp \<Rightarrow> bool \<times> int" where
  "stamp_order a = (case a of None \<Rightarrow> (True, 0) | Some n \<Rightarrow> (False, n))"

definition sort_order :: "ticket \<Rightarrow> (bool \<times> string) \<times> (bool \<times> int)" where
  "sort_order r = (key_order (issue_key r), stamp_order (resolved r))"

definition sort_values :: "ticket list \<Rightarrow> ticket list" where
  "sort_values rs = sort_key sort_order rs"

fun drop_duplicates_last :: "ticket list \<Rightarrow> ticket list" where
  "drop_duplicates_last [] = []"
| "drop_duplicates_last (r # rs) =
     (if issue_key r \<in> issue_key ` set rs then drop_duplicates_last rs
      else r # drop_duplicates_last rs)"

definition upsert :: "ticket list \<Rightarrow> ticket list \<Rightarrow> ticket list" where
  "upsert cur df = drop_duplicates_last (sort_values (cur @ df))"

text \<open>
  The endpoint: the store after the request, and the error or the counts it answers.
  An exception leaves the files as they were.
\<close>

definition upload_tickets :: "store \<Rightarrow> upload \<Rightarrow> store \<times> (error + summary_counts)" where
  "upload_tickets st u =
     (if \<not> endswith (lower (filename u)) ''.csv'' then (st, Inl UnsupportedFileType)
      else if set REQUIRED_TICKET_COLS - set (columns u) \<noteq> {}
        then (st, Inl (MissingColumns (missing_columns (columns u))))
      else case new_tickets u of
        Inl e \<Rightarrow> (st, Inl e)
      | Inr df \<Rightarrow>
          let cur = cur_table st;
              all = upsert (t_rows cur) df;
              cols = concat_columns (t_columns cur)
                       (kept_columns (columns u) @ [''resolution_minutes''])
          in (st \<lparr> tickets_file := Some \<lparr> t_columns = cols, t_rows = all \<rparr> \<rparr>,
              Inr \<lparr> tickets_stored = length all, new_rows = length df \<rparr>))"

text \<open>Uploads one after the other; a failed one changes nothing.\<close>

definition upload_all :: "store \<Rightarrow> upload list \<Rightarrow> store" where
  "upload_all st us = fold (\<lambda>u s. fst (upload_tickets s u)) us st"

definition empty_store :: store where
  "empty_store = \<lparr> tickets_file = None, sla_file = None \<rparr>"

text \<open>The invariant of the stored table: only closed tickets.\<close>

definition closed_only :: "store \<Rightarrow> bool" where
  "closed_only st = (\<forall>t \<in> set (t_rows (cur_table st)). status t = Some ''Permanently Closed'')"

subsection \<open>The reports\<close>

text \<open>
  A cell of a frame that a report hands to \<open>JSONResponse\<close>: a null object (\<open>None\<close>), a
  text, an integer, a truth value, a float64 (NaN is the null of a float column), a
  timestamp (\<open>None\<close> is \<open>NaT\<close>), or the ISO-8601 text of a timestamp. A record is the list
  of the column names with their cells; \<open>to_dict(orient="records")\<close> gives one per row.
\<close>

datatype cell =
    CNull
  | CStr string
  | CInt int
  | CBool bool
  | CFloat npfloat
  | CTime timestamp
  | CIso int

type_synonym records = "(string \<times> cell) list list"

definition str_cell :: "string option \<Rightarrow> cell" where
  "str_cell s = (case s of None \<Rightarrow> CNull | Some x \<Rightarrow> CStr x)"

text \<open>
  \<open>_json_records\<close>, one cell at a time and in the order of the source: timestamps to ISO
  text or \<open>None\<close>, infinities to NaN, NaN to \<open>None\<close>. The frames of the reports have no
  column of the nullable boolean type, so that the third step changes nothing.
\<close>

definition iso_cell :: "cell \<Rightarrow> cell" where
  "iso_cell c = (case c of CTime None \<Rightarrow> CNull | CTime (Some t) \<Rightarrow> CIso t | _ \<Rightarrow> c)"

definition replace_inf :: "npfloat \<Rightarrow> npfloat" where
  "replace_inf x = (if x = PInf \<or> x = NInf then NaN else x)"

definition replace_inf_cell :: "cell \<Rightarrow> cell" where
  "replace_inf_cell c = (case c of CFloat x \<Rightarrow> CFloat (replace_inf x) | _ \<Rightarrow> c)"

definition none_cell :: "cell \<Rightarrow> cell" where
  "none_cell c = (case c of CFloat x \<Rightarrow> (if isnan x then CNull else c) | _ \<Rightarrow> c)"

definition json_records :: "records \<Rightarrow> records" where
  "json_records out =
     map (map (\<lambda>(name, c). (name, none_cell (replace_inf_cell (iso_cell c))))) out"

text \<open>
  \<open>round(2)\<close> of numpy: times 100, to the nearest integer with ties to even, divided by
  100; NaN and the infinities stay.
\<close>

definition rint :: "real \<Rightarrow> int" where
  "rint x =
     (let f = \<lfloor>x\<rfloor>; d = x - of_int f
      in if d < 1 / 2 then f else if 1 / 2 < d then f + 1 else if even f then f else f + 1)"

definition frint :: "npfloat \<Rightarrow> npfloat" where
  "frint x = (case x of Fin r \<Rightarrow> Fin (of_int (rint r)) | _ \<Rightarrow> x)"

definition round2 :: "npfloat \<Rightarrow> npfloat" where
  "round2 x = fdiv (frint (fmul x (Fin 100))) (Fin 100)"

text \<open>
  The mean of a group skips NaN and is NaN for a group without a number. The sort orders
  of a float column, ascending and descending, both with NaN last.
\<close>

definition mean_skipna :: "npfloat list \<Rightarrow> npfloat" where
  "mean_skipna xs =
     (let vs = filter (\<lambda>x. \<not> isnan x) xs
      in if vs = [] then NaN else fdiv (foldl fadd (Fin 0) vs) (Fin (real (length vs))))"

definition float_asc :: "npfloat \<Rightarrow> nat \<times> real" where
  "float_asc x = (case x of NInf \<Rightarrow> (0, 0) | Fin r \<Rightarrow> (1, r) | PInf \<Rightarrow> (2, 0) | NaN \<Rightarrow> (3, 0))"

definition float_desc :: "npfloat \<Rightarrow> nat \<times> real" where
  "float_desc x = (case x of PInf \<Rightarrow> (0, 0) | Fin r \<Rightarrow> (1, - r) | NInf \<Rightarrow> (2, 0) | NaN \<Rightarrow> (3, 0))"

text \<open>
  \<open>d.groupby(col, as_index=False)["resolution_minutes"].mean()\<close>: one row for each key
  that is not null, the keys sorted.
\<close>

definition group_keys :: "(joined \<Rightarrow> string option) \<Rightarrow> joined list \<Rightarrow> string list" where
  "group_keys col d = sort (remdups (List.map_filter col d))"

definition group_mean :: "(joined \<Rightarrow> string option) \<Rightarrow> joined list \<Rightarrow> (string \<times> npfloat) list" where
  "group_mean col d =
     map (\<lambda>k. (k, mean_skipna (map resolution_minutes (filter (\<lambda>j. col j = Some k) d))))
       (group_keys col d)"

text \<open>
  \<open>assignee_avg\<close> and \<open>product_avg\<close> have the same body over two columns: mean, round,
  sort by mean and name, \<open>to_dict\<close>. The records go to \<open>JSONResponse\<close> as they are.
\<close>

definition avg_records :: "string \<Rightarrow> (joined \<Rightarrow> string option) \<Rightarrow> joined list \<Rightarrow> records" where
  "avg_records name col d =
     (let g = map (\<lambda>(k, m). (k, round2 m)) (group_mean col d);
          g = sort_key (\<lambda>(k, m). (float_asc m, k)) g
      in map (\<lambda>(k, m). [(name, CStr k), (''resolution_minutes'', CFloat m)]) g)"

definition assignee_avg :: "store \<Rightarrow> error + records" where
  "assignee_avg st =
     (case load_joined st of Inl e \<Rightarrow> Inl e | Inr d \<Rightarrow> Inr (avg_records ''assignee'' assignee d))"

definition product_avg :: "store \<Rightarrow> error + records" where
  "product_avg st =
     (case load_joined st of Inl e \<Rightarrow> Inl e | Inr d \<Rightarrow> Inr (avg_records ''product'' product d))"

text \<open>
  \<open>violations\<close>: the rows out of compliance, their percentages cleaned of infinities and
  rounded, sorted, and passed through \<open>_json_records\<close>.
\<close>

definition clean_pcts :: "joined \<Rightarrow> joined" where
  "clean_pcts j =
     j \<lparr> first_response_exceed_pct := round2 (replace_inf (first_response_exceed_pct j)),
         resolution_exceed_pct := round2 (replace_inf (resolution_exceed_pct j)) \<rparr>"

definition violation_record :: "joined \<Rightarrow> (string \<times> cell) list" where
  "violation_record j =
     [(''issue_key'', str_cell (issue_key j)),
      (''created'', CTime (created j)),
      (''assignee'', str_cell (assignee j)),
      (''product'', str_cell (product j)),
      (''reopen_count'', CInt (reopen_count j)),
      (''first_response_within_sla'', CBool (first_response_within_sla j)),
      (''first_response_exceed_pct'', CFloat (first_response_exceed_pct j)),
      (''resolution_within_sla'', CBool (resolution_within_sla j)),
      (''resolution_exceed_pct'', CFloat (resolution_exceed_pct j))]"

definition violations :: "store \<Rightarrow> error + records" where
  "violations st =
     (case load_joined st of
        Inl e \<Rightarrow> Inl e
      | Inr d \<Rightarrow>
          let v = filter (\<lambda>j. \<not> first_response_within_sla j \<or> \<not> resolution_within_sla j) d;
              out = map clean_pcts v;
              out = sort_key (\<lambda>j. (float_desc (resolution_exceed_pct j),
                                    float_desc (first_response_exceed_pct j),
                                    stamp_order (created j))) out
          in Inr (json_records (map violation_record out)))"

text \<open>
  \<open>reopens\<close>: the rows reopened more than once, sorted, their percentages rounded. The
  column \<open>summary\<close> is optional in an upload, and selecting it from a table that never
  had it is a \<open>KeyError\<close>. Line 285 writes \<open>None\<close> into a float column, where it is NaN.
\<close>

definition round_pcts :: "joined \<Rightarrow> joined" where
  "round_pcts j =
     j \<lparr> first_response_exceed_pct := round2 (first_response_exceed_pct j),
         resolution_exceed_pct := round2 (resolution_exceed_pct j) \<rparr>"

definition reopen_record :: "joined \<Rightarrow> (string \<times> cell) list" where
  "reopen_record j =
     [(''reopen_count'', CInt (reopen_count j)),
      (''summary'', str_cell (summary j)),
      (''issue_key'', str_cell (issue_key j)),
      (''created'', CTime (created j)),
      (''assignee'', str_cell (assignee j)),
      (''product'', str_cell (product j)),
      (''first_response_exceed_pct'', CFloat (first_response_exceed_pct j)),
      (''resolution_exceed_pct'', CFloat (resolution_exceed_pct j))]"

definition reopens :: "store \<Rightarrow> error + records" where
  "reopens st =
     (case load_joined st of
        Inl e \<Rightarrow> Inl e
      | Inr d \<Rightarrow>
          if ''summary'' \<notin> set (t_columns (cur_table st)) then Inl (KeyError ''summary'')
          else
            let r = filter (\<lambda>j. 1 < reopen_count j) d;
                r = sort_key (\<lambda>j. (- reopen_count j,
                                    float_desc (resolution_exceed_pct j),
                                    float_desc (first_response_exceed_pct j))) r;
                r = map round_pcts r
            in Inr (json_records (map reopen_record r)))"

text \<open>What may reach the response: no float cell that is NaN or infinite.\<close>

definition json_safe :: "cell \<Rightarrow> bool" where
  "json_safe c = (case c of CFloat x \<Rightarrow> isfinite x | _ \<Rightarrow> True)"

definition records_safe :: "records \<Rightarrow> bool" where
  "records_safe rs = list_all (list_all (\<lambda>(name, c). json_safe c)) rs"

subsection \<open>Example data\<close>

text \<open>
  The inputs at which the properties below are evaluated: a stored ticket answered and
  resolved in time, variants of it, an SLA table with one row, and uploads of one row.
  A timestamp \<open>n * (60 * 10 ^ 9)\<close> is \<open>n\<close> minutes after the epoch.
\<close>

definition ex_ticket :: ticket where
  "ex_ticket =
     \<lparr> issue_key = Some ''SUP-1'', severity = Some ''Severity 1'',
       status = Some ''Permanently Closed'',
       fr_target = Some (60 * (60 * 10 ^ 9)), fr_actual = Some (30 * (60 * 10 ^ 9)),
       created = Some 0, updated = None, resolved = Some (180 * (60 * 10 ^ 9)),
       assignee = Some ''bob'', environment = None, product = Some ''core'',
       summary = None, crm_company = ''Acme'', reopen_count = 0,
       resolution_minutes = Fin 180 \<rparr>"

definition ex_sla :: "npfloat \<Rightarrow> sla_table" where
  "ex_sla res =
     \<lparr> s_columns = [''crm_company'', ''severity'', ''first_response'', ''resolution''],
       s_rows = [\<lparr> sla_company = ''Acme'', sla_severity = Some ''Severity 1'',
                  first_response = Fin 60, resolution = res \<rparr>] \<rparr>"

definition ex_columns :: "string list" where
  "ex_columns = [''issue_key'', ''severity'', ''status'', ''fr_target'', ''fr_actual'',
     ''created'', ''resolved'', ''assignee'', ''product'', ''crm_company'', ''reopen_count'',
     ''resolution_minutes'']"

definition ex_store :: "ticket \<Rightarrow> npfloat \<Rightarrow> store" where
  "ex_store t res =
     \<lparr> tickets_file = Some \<lparr> t_columns = ex_columns, t_rows = [t] \<rparr>,
       sla_file = Some (ex_sla res) \<rparr>"

text \<open>A late first response with the target at creation time, and the same without a creation time.\<close>

definition ex_late :: ticket where
  "ex_late = ex_ticket \<lparr> fr_target := Some 0, fr_actual := Some (60 * 10 ^ 9) \<rparr>"

definition ex_no_created :: ticket where
  "ex_no_created = ex_late \<lparr> created := None \<rparr>"

definition ex_no_response :: ticket where
  "ex_no_response = ex_ticket \<lparr> fr_actual := None, created := None \<rparr>"

definition ex_row :: csv_row where
  "ex_row =
     \<lparr> c_issue_key = Some ''SUP-1'', c_severity = Some ''Severity 1'',
       c_status = Some ''Permanently Closed'',
       c_fr_target = Some (60 * (60 * 10 ^ 9)), c_fr_actual = Some (30 * (60 * 10 ^ 9)),
       c_created = Some 0, c_updated = None, c_resolved = Some (180 * (60 * 10 ^ 9)),
       c_assignee = Some ''bob'', c_environment = None, c_product = Some ''core'',
       c_summary = None, c_crm_company = Some ''Acme   Inc. '',
       c_reopen_count = Numeric (Fin 2) \<rparr>"

definition ex_upload :: "csv_row list \<Rightarrow> upload" where
  "ex_upload rs = \<lparr> filename = ''tickets.CSV'', columns = EXPECTED_TICKET_COLS, rows = rs \<rparr>"

definition ex_open_row :: csv_row where
  "ex_open_row = ex_row \<lparr> c_issue_key := Some ''SUP-2'', c_status := Some ''Open'' \<rparr>"

definition ex_upload_no_status :: upload where
  "ex_upload_no_status =
     \<lparr> filename = ''tickets.csv'',
       columns = [''Issue key'', ''Custom field (Severity)'',
         ''Custom field (First Response SLA Target Date)'',
         ''Custom field (First Response SLA Actual Date)'',
         ''Resolved'', ''Assignee'', ''Custom field (Product)'',
         ''Custom field (CRM Company)'', ''Custom field (Reopen Count)''],
       rows = [] \<rparr>"

definition ex_blank_row :: csv_row where
  "ex_blank_row = ex_row \<lparr> c_reopen_count := Blank \<rparr>"

definition ex_negative_row :: csv_row where
  "ex_negative_row = ex_row \<lparr> c_reopen_count := Numeric (Fin (- 3)) \<rparr>"

definition ex_earlier_row :: csv_row where
  "ex_earlier_row = ex_row \<lparr> c_resolved := Some (120 * (60 * 10 ^ 9)) \<rparr>"

definition ex_unresolved_row :: csv_row where
  "ex_unresolved_row = ex_row \<lparr> c_resolved := None \<rparr>"

definition ex_stored :: store where
  "ex_stored = fst (upload_tickets empty_store (ex_upload [ex_row]))"

definition ex_unresolved_store :: store where
  "ex_unresolved_store =
     (fst (upload_tickets empty_store (ex_upload [ex_unresolved_row])))
       \<lparr> sla_file := Some (ex_sla (Fin 240)) \<rparr>"

section \<open>Properties\<close>

subsection \<open>Facts about float64 arithmetic\<close>

lemma FLOAT_MAX_pos: "0 < FLOAT_MAX"
  by (simp add: FLOAT_MAX_def)

lemma fless_zero_overflow: "fless (Fin 0) (overflow r) = (0 < r)"
  using FLOAT_MAX_pos by (auto simp: overflow_def)

lemma fle_zero_overflow: "fle (Fin 0) (overflow r) = (0 \<le> r)"
  using FLOAT_MAX_pos by (auto simp: overflow_def)

lemma overflow_cases:
  obtains (fin) "overflow r = Fin r" "\<bar>r\<bar> \<le> FLOAT_MAX"
        | (pinf) "overflow r = PInf" "FLOAT_MAX < r"
        | (ninf) "overflow r = NInf" "r < - FLOAT_MAX"
  by (cases "FLOAT_MAX < r"; cases "r < - FLOAT_MAX") (auto simp: overflow_def abs_le_iff)

lemma fdiv_NaN_right [simp]: "fdiv a NaN = NaN"
  by (cases a) simp_all

lemma fmul_NaN_right [simp]: "fmul a NaN = NaN"
  by (cases a) simp_all

lemma fadd_NaN_right [simp]: "fadd a NaN = NaN"
  by (cases a) simp_all

text \<open>
  A positive numerator over a clipped denominator, times 100, is at least 0, unless both
  are infinite (then it is NaN).
\<close>

lemma pct_nonneg:
  assumes "fless (Fin 0) a" and "fle (Fin 1) c" and "a \<noteq> PInf \<or> c \<noteq> PInf"
  shows "fle (Fin 0) (fmul (fdiv a c) (Fin 100))"
proof (cases a)
  case (Fin x)
  then have x: "0 < x" using assms(1) by simp
  show ?thesis
  proof (cases c)
    case (Fin y)
    then have y: "1 \<le> y" using assms(2) by simp
    then have q: "0 < x / y" using x by simp
    show ?thesis
    proof (cases "x / y" rule: overflow_cases)
      case fin
      then show ?thesis using \<open>a = Fin x\<close> \<open>c = Fin y\<close> y x by (simp add: fle_zero_overflow)
    next
      case pinf
      then show ?thesis using \<open>a = Fin x\<close> \<open>c = Fin y\<close> y by (simp add: signed_inf_def)
    next
      case ninf
      then show ?thesis using q FLOAT_MAX_pos by simp
    qed
  next
    case PInf
    then show ?thesis using Fin by (simp add: fle_zero_overflow)
  next
    case NInf
    then show ?thesis using assms(2) by simp
  next
    case NaN
    then show ?thesis using assms(2) by simp
  qed
next
  case PInf
  then show ?thesis using assms(2,3) by (cases c) (auto simp: signed_inf_def)
next
  case NInf
  then show ?thesis using assms(1) by simp
next
  case NaN
  then show ?thesis using assms(1) by simp
qed

lemma clip_lower_ge: "\<not> isnan x \<Longrightarrow> fle (Fin 1) (clip_lower x (Fin 1))"
  by (cases x) (auto simp: clip_lower_def isnan_def)

lemma clip_lower_PInf: "clip_lower x (Fin 1) = PInf \<longleftrightarrow> x = PInf"
  by (cases x) (auto simp: clip_lower_def isnan_def)

lemma fsub_pos_not_PInf: "fless (Fin 0) (fsub a b) \<Longrightarrow> b \<noteq> PInf \<and> b \<noteq> NaN \<and> a \<noteq> NaN"
  by (cases a; cases b) (auto simp: fsub_def)

lemma res_exceed_pct_nonneg: "fle (Fin 0) (res_exceed_pct t r)"
proof (cases "fless (Fin 0) (delta_res t r)")
  case True
  then have r: "r \<noteq> PInf \<and> r \<noteq> NaN" unfolding delta_res_def by (auto dest: fsub_pos_not_PInf)
  then have "fle (Fin 1) (clip_lower r (Fin 1))" by (simp add: clip_lower_ge isnan_def)
  moreover have "clip_lower r (Fin 1) \<noteq> PInf" using r by (simp add: clip_lower_PInf)
  ultimately show ?thesis using True by (simp add: res_exceed_pct_def np_where_def pct_nonneg)
next
  case False
  then show ?thesis by (simp add: res_exceed_pct_def np_where_def)
qed

lemma fle_imp_fsub_not_pos: "fle a b \<Longrightarrow> \<not> fless (Fin 0) (fsub a b)"
  by (cases a; cases b) (auto simp: fsub_def fless_zero_overflow)

lemma res_within_zero: "res_within t r \<Longrightarrow> res_exceed_pct t r = Fin 0"
  by (simp add: res_within_def res_exceed_pct_def np_where_def delta_res_def fle_imp_fsub_not_pos)

lemma fless_zero_div60: "fless (Fin 0) (fdiv a (Fin 60)) = fless (Fin 0) a"
  by (cases a) (auto simp: fless_zero_overflow signed_inf_def)

lemma delta_pos_iff:
  "fless (Fin 0) (minutes_between a b) \<longleftrightarrow> (\<exists>x y. a = Some x \<and> b = Some y \<and> y < x)"
  by (cases a; cases b) (auto simp: minutes_between_def fless_zero_div60 td_sub_def total_seconds_def fless_zero_overflow)

lemma fr_within_zero: "fr_within t \<Longrightarrow> fr_exceed_pct t = Fin 0"
  by (auto simp: fr_within_def fr_exceed_pct_def np_where_def delta_fr_def delta_pos_iff ts_le_def)

lemma fr_null_zero: "fr_actual t = None \<or> fr_target t = None \<Longrightarrow> fr_exceed_pct t = Fin 0"
  by (auto simp: fr_exceed_pct_def np_where_def delta_fr_def delta_pos_iff)

lemma fr_not_late_zero: "\<not> fless (Fin 0) (delta_fr t) \<Longrightarrow> fr_exceed_pct t = Fin 0"
  by (auto simp: fr_exceed_pct_def np_where_def)

lemma fr_created_null_late:
  "created t = None \<Longrightarrow> fless (Fin 0) (delta_fr t) \<Longrightarrow> fr_exceed_pct t = NaN"
  by (auto simp: fr_exceed_pct_def np_where_def target_fr_def minutes_between_def td_sub_def total_seconds_def clip_lower_def isnan_def split: option.splits)

lemma overflow_in_range: "\<bar>r\<bar> \<le> FLOAT_MAX \<Longrightarrow> overflow r = Fin r"
  by (auto simp: overflow_def)

lemma FLOAT_MAX_huge: "2 ^ 80 \<le> FLOAT_MAX"
  by (simp add: FLOAT_MAX_def)

lemma FLOAT_MAX_big: "2 ^ 64 \<le> FLOAT_MAX"
  by (simp add: FLOAT_MAX_def)

lemma minutes_between_int64:
  assumes "int64 x" "int64 y"
  shows "minutes_between (Some x) (Some y) = Fin (ns_minutes (x - y))"
proof -
  have b: "\<bar>real_of_int (x - y)\<bar> \<le> 2 ^ 64"
  proof -
    have "\<bar>x - y\<bar> \<le> 2 ^ 64" using assms by (simp add: int64_def abs_le_iff)
    then have "real_of_int \<bar>x - y\<bar> \<le> real_of_int (2 ^ 64)" by (rule of_int_le_iff[THEN iffD2])
    then show ?thesis by simp
  qed
  have "\<bar>real_of_int (x - y) / 10 ^ 9\<bar> \<le> \<bar>real_of_int (x - y)\<bar>"
    by (simp add: field_simps abs_mult mult_le_cancel_left1)
  then have s: "\<bar>real_of_int (x - y) / 10 ^ 9\<bar> \<le> FLOAT_MAX"
    using b FLOAT_MAX_big by (meson order_trans)
  have "\<bar>real_of_int (x - y) / 10 ^ 9 / 60\<bar> \<le> \<bar>real_of_int (x - y) / 10 ^ 9\<bar>"
    by (simp add: field_simps abs_mult)
  then have m: "\<bar>real_of_int (x - y) / 10 ^ 9 / 60\<bar> \<le> FLOAT_MAX"
    using s by (rule order_trans)
  show ?thesis using s m
    by (auto simp: minutes_between_def td_sub_def total_seconds_def overflow_def ns_minutes_def)
qed

lemma ns_minutes_bound: "int64 x \<Longrightarrow> int64 y \<Longrightarrow> \<bar>ns_minutes (x - y)\<bar> \<le> 2 ^ 64"
proof -
  assume a: "int64 x" "int64 y"
  have "\<bar>x - y\<bar> \<le> 2 ^ 64" using a by (simp add: int64_def abs_le_iff)
  then have "real_of_int \<bar>x - y\<bar> \<le> real_of_int (2 ^ 64)" by (rule of_int_le_iff[THEN iffD2])
  then have b: "\<bar>real_of_int (x - y)\<bar> \<le> 2 ^ 64" by simp
  have "\<bar>ns_minutes (x - y)\<bar> \<le> \<bar>real_of_int (x - y)\<bar>"
    by (simp add: ns_minutes_def field_simps abs_mult)
  then show ?thesis using b by (rule order_trans)
qed

text \<open>The columns of a joined row.\<close>

lemma join_row_sel [simp]:
  "first_response_within_sla (join_row t tg) = fr_within t"
  "first_response_exceed_pct (join_row t tg) = fr_exceed_pct t"
  "resolution_within_sla (join_row t tg) = res_within t (snd tg)"
  "resolution_exceed_pct (join_row t tg) = res_exceed_pct t (snd tg)"
  "j_resolution (join_row t tg) = snd tg"
  "j_first_response (join_row t tg) = fst tg"
  "fr_actual (join_row t tg) = fr_actual t"
  "fr_target (join_row t tg) = fr_target t"
  "created (join_row t tg) = created t"
  "resolution_minutes (join_row t tg) = resolution_minutes t"
  by (simp_all add: join_row_def ticket.defs)

lemma join_row_fr [simp]:
  "delta_fr (join_row t tg) = delta_fr t"
  "target_fr (join_row t tg) = target_fr t"
  "int64_stamps (join_row t tg) = int64_stamps t"
  by (simp_all add: delta_fr_def target_fr_def int64_stamps_def)

lemma load_joined_rows:
  assumes "load_joined st = Inr d" and "j \<in> set d"
  obtains t tg tt ss where "j = join_row t tg" "tickets_file st = Some tt" "t \<in> set (t_rows tt)"
    "sla_file st = Some ss" "tg \<in> set (merged_targets t (s_rows ss))"
  using assms
  by (auto simp: load_joined_def merge_left_def split: option.splits if_splits)

lemma ex_load: "load_joined (ex_store t res) =
   Inr (map (join_row t) (merged_targets t (s_rows (ex_sla res))))"
  by (simp add: load_joined_def ex_store_def ex_sla_def merge_left_def)

lemma ex_targets:
  "crm_company t = ''Acme'' \<Longrightarrow> severity t = Some ''Severity 1'' \<Longrightarrow>
   merged_targets t (s_rows (ex_sla res)) = [(Fin 60, res)]"
  by (simp add: merged_targets_def sla_matches_def ex_sla_def)


lemma clip_lower_Fin: "clip_lower (Fin w) (Fin 1) = Fin (max w 1)"
  by (simp add: clip_lower_def isnan_def max_def)

lemma fr_pct_late:
  assumes "int64_stamps t" and "fr_actual t = Some a" and "fr_target t = Some b"
    and "created t = Some c" and "b < a"
  shows "fr_exceed_pct t = Fin (ns_minutes (a - b) / max (ns_minutes (b - c)) 1 * 100)"
proof -
  let ?d = "ns_minutes (a - b)" and ?m = "max (ns_minutes (b - c)) 1"
  have i: "int64 a" "int64 b" "int64 c"
    using assms by (simp_all add: int64_stamps_def int64_stamp_def)
  have d: "delta_fr t = Fin ?d" and w: "target_fr t = Fin (ns_minutes (b - c))"
    using assms i by (simp_all add: delta_fr_def target_fr_def minutes_between_int64)
  have dpos: "0 < ?d" using assms(5) by (simp add: ns_minutes_def)
  have dle: "?d \<le> 2 ^ 64" using ns_minutes_bound[OF i(1) i(2)] by simp
  have m1: "1 \<le> ?m" by simp
  have q0: "0 \<le> ?d / ?m" using dpos m1 by simp
  have "?d / ?m \<le> ?d / 1" using dpos m1 by (intro divide_left_mono) simp_all
  then have q: "?d / ?m \<le> 2 ^ 64" using dle by simp
  then have "?d / ?m * 100 \<le> 2 ^ 64 * 100" by (intro mult_right_mono) simp_all
  also have "\<dots> \<le> (2 ^ 80 :: real)" by simp
  finally have p: "?d / ?m * 100 \<le> FLOAT_MAX" using FLOAT_MAX_huge by simp
  have q': "?d / ?m \<le> FLOAT_MAX" using q FLOAT_MAX_big by simp
  have o1: "overflow (?d / ?m) = Fin (?d / ?m)" using q0 q' by (intro overflow_in_range) simp
  have o2: "overflow (?d / ?m * 100) = Fin (?d / ?m * 100)"
    using q0 p by (intro overflow_in_range) simp
  have mne: "?m \<noteq> 0" using m1 by simp
  show ?thesis
    unfolding fr_exceed_pct_def d w clip_lower_Fin np_where_def
    using dpos mne o1 o2 by simp
qed

lemma fr_pct_nonneg_int64:
  assumes "int64_stamps t" and "created t \<noteq> None \<or> \<not> fless (Fin 0) (delta_fr t)"
  shows "fle (Fin 0) (fr_exceed_pct t)"
proof (cases "fless (Fin 0) (delta_fr t)")
  case True
  then obtain a b where ab: "fr_actual t = Some a" "fr_target t = Some b" "b < a"
    by (auto simp: delta_fr_def delta_pos_iff)
  obtain c where c: "created t = Some c" using True assms(2) by auto
  have m1: "1 \<le> max (ns_minutes (b - c)) 1" by simp
  have "0 < ns_minutes (a - b)" using ab(3) by (simp add: ns_minutes_def)
  then have "0 \<le> ns_minutes (a - b) / max (ns_minutes (b - c)) 1 * 100" using m1 by simp
  then show ?thesis using fr_pct_late[OF assms(1) ab(1,2) c ab(3)] by simp
next
  case False
  then show ?thesis by (simp add: fr_not_late_zero)
qed

lemma fr_pct_never_negative: "fr_exceed_pct t = NaN \<or> fle (Fin 0) (fr_exceed_pct t)"
proof (cases "fless (Fin 0) (delta_fr t)")
  case True
  show ?thesis
  proof (cases "isnan (clip_lower (target_fr t) (Fin 1)) \<or> (delta_fr t = PInf \<and> clip_lower (target_fr t) (Fin 1) = PInf)")
    case True
    then show ?thesis
      using \<open>fless (Fin 0) (delta_fr t)\<close>
      by (auto simp: fr_exceed_pct_def np_where_def isnan_def)
  next
    case False
    then have "\<not> isnan (target_fr t)" by (auto simp: clip_lower_def isnan_def)
    then have "fle (Fin 1) (clip_lower (target_fr t) (Fin 1))" by (rule clip_lower_ge)
    then show ?thesis using True False
      by (simp add: fr_exceed_pct_def np_where_def pct_nonneg)
  qed
next
  case False
  then show ?thesis by (simp add: fr_not_late_zero)
qed

subsection \<open>The exceed percentages of a joined record\<close>

text \<open>
  C1. For every joined record that \<open>_load_joined\<close> produces, the resolution exceed
  percentage is at least 0, and the first-response exceed percentage is never negative: it
  is NaN or at least 0, and for int64 timestamps it is at least 0 exactly unless the
  creation time is null while the response is late (then it is NaN). Each percentage is
  exactly 0 whenever its within-SLA flag is true.
\<close>

theorem exceed_pct_sign:
  assumes "load_joined st = Inr d" and "j \<in> set d"
  shows "fle (Fin 0) (resolution_exceed_pct j)
       \<and> (first_response_exceed_pct j = NaN \<or> fle (Fin 0) (first_response_exceed_pct j))
       \<and> (int64_stamps j \<longrightarrow>
            fle (Fin 0) (first_response_exceed_pct j) =
              (\<not> (created j = None \<and> fless (Fin 0) (delta_fr j))))
       \<and> (first_response_within_sla j \<longrightarrow> first_response_exceed_pct j = Fin 0)
       \<and> (resolution_within_sla j \<longrightarrow> resolution_exceed_pct j = Fin 0)"
proof -
  from assms obtain t tg where j: "j = join_row t tg" by (rule load_joined_rows)
  have "fle (Fin 0) (res_exceed_pct t (snd tg))" by (rule res_exceed_pct_nonneg)
  moreover have "fr_exceed_pct t = NaN \<or> fle (Fin 0) (fr_exceed_pct t)"
    by (rule fr_pct_never_negative)
  moreover have "int64_stamps t \<longrightarrow>
      fle (Fin 0) (fr_exceed_pct t) = (\<not> (created t = None \<and> fless (Fin 0) (delta_fr t)))"
    using fr_pct_nonneg_int64[of t] fr_created_null_late[of t] by auto
  moreover have "fr_within t \<longrightarrow> fr_exceed_pct t = Fin 0" by (simp add: fr_within_zero)
  moreover have "res_within t (snd tg) \<longrightarrow> res_exceed_pct t (snd tg) = Fin 0"
    by (simp add: res_within_zero)
  ultimately show ?thesis unfolding j by simp
qed

theorem exceed_pct_sign_witness:
  "load_joined (ex_store ex_ticket (Fin 240)) = Inr [join_row ex_ticket (Fin 60, Fin 240)]
   \<and> join_row ex_ticket (Fin 60, Fin 240) \<in> set [join_row ex_ticket (Fin 60, Fin 240)]
   \<and> int64_stamps (join_row ex_ticket (Fin 60, Fin 240))
   \<and> first_response_within_sla (join_row ex_ticket (Fin 60, Fin 240))
   \<and> resolution_within_sla (join_row ex_ticket (Fin 60, Fin 240))
   \<and> first_response_exceed_pct (join_row ex_ticket (Fin 60, Fin 240)) = Fin 0
   \<and> resolution_exceed_pct (join_row ex_ticket (Fin 60, Fin 240)) = Fin 0
   \<and> fle (Fin 0) (first_response_exceed_pct (join_row ex_ticket (Fin 60, Fin 240)))"
proof -
  have l: "load_joined (ex_store ex_ticket (Fin 240)) = Inr [join_row ex_ticket (Fin 60, Fin 240)]"
    by (simp add: ex_load ex_targets ex_ticket_def)
  have m: "join_row ex_ticket (Fin 60, Fin 240) \<in> set [join_row ex_ticket (Fin 60, Fin 240)]"
    by simp
  have i: "int64_stamps (join_row ex_ticket (Fin 60, Fin 240))"
    by (simp add: int64_stamps_def int64_stamp_def int64_def ex_ticket_def)
  have w1: "first_response_within_sla (join_row ex_ticket (Fin 60, Fin 240))"
    by (simp add: fr_within_def ts_le_def notna_def ex_ticket_def)
  have w2: "resolution_within_sla (join_row ex_ticket (Fin 60, Fin 240))"
    by (simp add: res_within_def ex_ticket_def)
  show ?thesis using exceed_pct_sign[OF l m] l i w1 w2 by simp
qed

theorem exceed_pct_sign_counterexample:
  "load_joined (ex_store ex_no_created (Fin 240)) = Inr [join_row ex_no_created (Fin 60, Fin 240)]
   \<and> first_response_exceed_pct (join_row ex_no_created (Fin 60, Fin 240)) = NaN
   \<and> \<not> fle (Fin 0) (first_response_exceed_pct (join_row ex_no_created (Fin 60, Fin 240)))"
  by (simp add: ex_load ex_targets ex_no_created_def ex_late_def ex_ticket_def
      fr_exceed_pct_def delta_fr_def target_fr_def minutes_between_def td_sub_def
      total_seconds_def overflow_def FLOAT_MAX_def np_where_def clip_lower_def isnan_def)

lemma res_pct_late:
  assumes "resolution_minutes t = Fin x" and "y < x" and "x - y \<le> FLOAT_MAX"
  shows "res_exceed_pct t (Fin y) = overflow ((x - y) / max y 1 * 100)"
proof -
  have d: "delta_res t (Fin y) = Fin (x - y)"
    using assms by (simp add: delta_res_def fsub_def overflow_in_range)
  have m1: "1 \<le> max y 1" by simp
  have "(x - y) / max y 1 \<le> (x - y) / 1" using assms(2) m1 by (intro divide_left_mono) simp_all
  then have "(x - y) / max y 1 \<le> FLOAT_MAX" using assms(3) by simp
  moreover have "0 \<le> (x - y) / max y 1" using assms(2) m1 by simp
  ultimately have o: "overflow ((x - y) / max y 1) = Fin ((x - y) / max y 1)"
    by (intro overflow_in_range) simp
  have mne: "max y 1 \<noteq> 0" using m1 by simp
  show ?thesis
    unfolding res_exceed_pct_def d clip_lower_Fin np_where_def
    using assms(2) mne o by simp
qed

lemma fle_zero_not_less: "fle (Fin 0) a \<Longrightarrow> \<not> fless a (Fin 0) \<and> a \<noteq> NInf"
  by (cases a) auto

lemma fr_pct_not_infinite:
  assumes "int64_stamps t"
  shows "fr_exceed_pct t \<noteq> PInf \<and> fr_exceed_pct t \<noteq> NInf"
proof (cases "fless (Fin 0) (delta_fr t)")
  case True
  then obtain a b where ab: "fr_actual t = Some a" "fr_target t = Some b" "b < a"
    by (auto simp: delta_fr_def delta_pos_iff)
  show ?thesis
  proof (cases "created t")
    case None
    then show ?thesis using True by (simp add: fr_created_null_late)
  next
    case (Some c)
    then show ?thesis using fr_pct_late[OF assms ab(1,2) Some ab(3)] by simp
  qed
next
  case False
  then show ?thesis by (simp add: fr_not_late_zero)
qed

text \<open>
  C2. In the first-response exceed percentage of a joined record, a null \<open>fr_actual\<close> or
  a null \<open>fr_target\<close> gives 0. A null \<open>created\<close> gives 0 when the response is not late, and
  NaN when it is late: the window is NaN, the clip keeps it, and the quotient is NaN.
\<close>

theorem exceed_pct_null_stamps:
  assumes "load_joined st = Inr d" and "j \<in> set d"
  shows "(fr_actual j = None \<or> fr_target j = None \<longrightarrow> first_response_exceed_pct j = Fin 0)
       \<and> (created j = None \<longrightarrow>
            first_response_exceed_pct j = (if fless (Fin 0) (delta_fr j) then NaN else Fin 0))"
proof -
  from assms obtain t tg where j: "j = join_row t tg" by (rule load_joined_rows)
  have "fr_actual t = None \<or> fr_target t = None \<longrightarrow> fr_exceed_pct t = Fin 0"
    using fr_null_zero[of t] by blast
  moreover have "created t = None \<longrightarrow>
      fr_exceed_pct t = (if fless (Fin 0) (delta_fr t) then NaN else Fin 0)"
    by (simp add: fr_created_null_late fr_not_late_zero)
  ultimately show ?thesis unfolding j by simp
qed

theorem exceed_pct_null_stamps_witness:
  "load_joined (ex_store ex_no_response (Fin 240)) = Inr [join_row ex_no_response (Fin 60, Fin 240)]
   \<and> join_row ex_no_response (Fin 60, Fin 240) \<in> set [join_row ex_no_response (Fin 60, Fin 240)]
   \<and> (fr_actual (join_row ex_no_response (Fin 60, Fin 240)) = None
        \<or> fr_target (join_row ex_no_response (Fin 60, Fin 240)) = None)
   \<and> created (join_row ex_no_response (Fin 60, Fin 240)) = None
   \<and> first_response_exceed_pct (join_row ex_no_response (Fin 60, Fin 240)) = Fin 0"
proof -
  have l: "load_joined (ex_store ex_no_response (Fin 240)) = Inr [join_row ex_no_response (Fin 60, Fin 240)]"
    by (simp add: ex_load ex_targets ex_no_response_def ex_ticket_def)
  have m: "join_row ex_no_response (Fin 60, Fin 240) \<in> set [join_row ex_no_response (Fin 60, Fin 240)]"
    by simp
  have a: "fr_actual (join_row ex_no_response (Fin 60, Fin 240)) = None"
    and c: "created (join_row ex_no_response (Fin 60, Fin 240)) = None"
    by (simp_all add: ex_no_response_def ex_ticket_def)
  show ?thesis using exceed_pct_null_stamps[OF l m] l a c by simp
qed

theorem exceed_pct_null_stamps_counterexample:
  "load_joined (ex_store ex_no_created (Fin 240)) = Inr [join_row ex_no_created (Fin 60, Fin 240)]
   \<and> created (join_row ex_no_created (Fin 60, Fin 240)) = None
   \<and> first_response_exceed_pct (join_row ex_no_created (Fin 60, Fin 240)) \<noteq> Fin 0"
  by (simp add: ex_load ex_targets ex_no_created_def ex_late_def ex_ticket_def
      fr_exceed_pct_def delta_fr_def target_fr_def minutes_between_def td_sub_def
      total_seconds_def overflow_def FLOAT_MAX_def np_where_def clip_lower_def isnan_def)

text \<open>
  C3. For a joined record with int64 timestamps: a late first response with a creation
  time has the percentage \<open>delta / max(window, 1.0) * 100\<close>, so that a window of 0 and a
  negative window divide by 1.0; a late resolution has the same formula over
  \<open>max(sla_resolution, 1.0)\<close>, overflowing to infinity when the product leaves the float64
  range. Neither percentage is ever negative, the first-response percentage is never
  infinite, and the resolution percentage is never minus infinity.
\<close>

theorem exceed_pct_denominator:
  assumes "load_joined st = Inr d" and "j \<in> set d" and "int64_stamps j"
  shows "(fr_actual j = Some a \<and> fr_target j = Some b \<and> created j = Some c \<and> b < a \<longrightarrow>
            first_response_exceed_pct j =
              Fin (ns_minutes (a - b) / max (ns_minutes (b - c)) 1 * 100))
       \<and> (resolution_minutes j = Fin x \<and> j_resolution j = Fin y \<and> y < x \<and> x - y \<le> FLOAT_MAX \<longrightarrow>
            resolution_exceed_pct j = overflow ((x - y) / max y 1 * 100))
       \<and> \<not> fless (first_response_exceed_pct j) (Fin 0)
       \<and> \<not> fless (resolution_exceed_pct j) (Fin 0)
       \<and> first_response_exceed_pct j \<noteq> PInf
       \<and> first_response_exceed_pct j \<noteq> NInf
       \<and> resolution_exceed_pct j \<noteq> NInf"
proof -
  from assms(1,2) obtain t tg where j: "j = join_row t tg" by (rule load_joined_rows)
  have i: "int64_stamps t" using assms(3) j by simp
  have 1: "fr_actual t = Some a \<and> fr_target t = Some b \<and> created t = Some c \<and> b < a \<longrightarrow>
      fr_exceed_pct t = Fin (ns_minutes (a - b) / max (ns_minutes (b - c)) 1 * 100)"
    using fr_pct_late[OF i] by blast
  have 2: "resolution_minutes t = Fin x \<and> snd tg = Fin y \<and> y < x \<and> x - y \<le> FLOAT_MAX \<longrightarrow>
      res_exceed_pct t (snd tg) = overflow ((x - y) / max y 1 * 100)"
    using res_pct_late[of t x y] by auto
  have 3: "\<not> fless (fr_exceed_pct t) (Fin 0)"
    using fr_pct_never_negative[of t] by (auto dest: fle_zero_not_less)
  have 4: "\<not> fless (res_exceed_pct t (snd tg)) (Fin 0) \<and> res_exceed_pct t (snd tg) \<noteq> NInf"
    using res_exceed_pct_nonneg[of t "snd tg"] by (auto dest: fle_zero_not_less)
  have 5: "fr_exceed_pct t \<noteq> PInf \<and> fr_exceed_pct t \<noteq> NInf"
    using i by (rule fr_pct_not_infinite)
  show ?thesis unfolding j using 1 2 3 4 5 by simp
qed

theorem exceed_pct_denominator_witness:
  "load_joined (ex_store ex_late (Fin 120)) = Inr [join_row ex_late (Fin 60, Fin 120)]
   \<and> join_row ex_late (Fin 60, Fin 120) \<in> set [join_row ex_late (Fin 60, Fin 120)]
   \<and> int64_stamps (join_row ex_late (Fin 60, Fin 120))
   \<and> fr_actual (join_row ex_late (Fin 60, Fin 120)) = Some (60 * 10 ^ 9)
   \<and> fr_target (join_row ex_late (Fin 60, Fin 120)) = Some 0
   \<and> created (join_row ex_late (Fin 60, Fin 120)) = Some 0
   \<and> (0 :: int) < 60 * 10 ^ 9
   \<and> resolution_minutes (join_row ex_late (Fin 60, Fin 120)) = Fin 180
   \<and> j_resolution (join_row ex_late (Fin 60, Fin 120)) = Fin 120
   \<and> (120 :: real) < 180 \<and> (180 :: real) - 120 \<le> FLOAT_MAX
   \<and> first_response_exceed_pct (join_row ex_late (Fin 60, Fin 120)) = Fin 100
   \<and> resolution_exceed_pct (join_row ex_late (Fin 60, Fin 120)) = Fin 50"
proof -
  have l: "load_joined (ex_store ex_late (Fin 120)) = Inr [join_row ex_late (Fin 60, Fin 120)]"
    by (simp add: ex_load ex_targets ex_late_def ex_ticket_def)
  have m: "join_row ex_late (Fin 60, Fin 120) \<in> set [join_row ex_late (Fin 60, Fin 120)]"
    by simp
  have i: "int64_stamps (join_row ex_late (Fin 60, Fin 120))"
    by (simp add: int64_stamps_def int64_stamp_def int64_def ex_late_def ex_ticket_def)
  have s: "fr_actual (join_row ex_late (Fin 60, Fin 120)) = Some (60 * 10 ^ 9)"
    "fr_target (join_row ex_late (Fin 60, Fin 120)) = Some 0"
    "created (join_row ex_late (Fin 60, Fin 120)) = Some 0"
    "resolution_minutes (join_row ex_late (Fin 60, Fin 120)) = Fin 180"
    "j_resolution (join_row ex_late (Fin 60, Fin 120)) = Fin 120"
    by (simp_all add: ex_late_def ex_ticket_def)
  have f: "(180 :: real) - 120 \<le> FLOAT_MAX" by (simp add: FLOAT_MAX_def)
  have o: "overflow 50 = Fin 50" by (simp add: overflow_def FLOAT_MAX_def)
  show ?thesis
    using exceed_pct_denominator[OF l m i, of "60 * 10 ^ 9" 0 0 180 120] l i s f o
    by (simp add: ns_minutes_def)
qed

theorem exceed_pct_denominator_counterexample:
  "load_joined (ex_store ex_ticket (Fin (- (10 ^ 308)))) =
     Inr [join_row ex_ticket (Fin 60, Fin (- (10 ^ 308)))]
   \<and> clip_lower (Fin (- (10 ^ 308))) (Fin 1) = Fin 1
   \<and> resolution_exceed_pct (join_row ex_ticket (Fin 60, Fin (- (10 ^ 308)))) = PInf"
  by (simp add: ex_load ex_targets ex_ticket_def res_exceed_pct_def delta_res_def fsub_def
      overflow_def FLOAT_MAX_def np_where_def clip_lower_def isnan_def)

subsection \<open>Company names\<close>

lemma isspace_space: "isspace CHR '' ''"
  by (simp add: isspace_def)

lemma no_lead_dropWhile: "no_lead (dropWhile isspace s)"
  unfolding no_lead_def using hd_dropWhile[of isspace s] by blast

lemma dropWhile_no_lead: "no_lead s \<Longrightarrow> dropWhile isspace s = s"
  by (cases s) (auto simp: no_lead_def)

lemma collapse_spaces_Nil_iff: "collapse_spaces s = [] \<longleftrightarrow> s = []"
  by (cases s) auto

lemma no_lead_collapse: "no_lead s \<Longrightarrow> no_lead (collapse_spaces s)"
  by (cases s) (auto simp: no_lead_def)

lemma collapse_spaces_idem: "collapse_spaces (collapse_spaces s) = collapse_spaces s"
proof (induction s rule: collapse_spaces.induct)
  case 1
  show ?case by simp
next
  case (2 c cs)
  show ?case
  proof (cases "isspace c")
    case True
    have "no_lead (collapse_spaces (dropWhile isspace cs))"
      by (rule no_lead_collapse) (rule no_lead_dropWhile)
    then have "dropWhile isspace (collapse_spaces (dropWhile isspace cs))
        = collapse_spaces (dropWhile isspace cs)"
      by (rule dropWhile_no_lead)
    then show ?thesis using True 2(1) by (simp add: isspace_space)
  next
    case False
    then show ?thesis using 2(2) by simp
  qed
qed

lemma last_dropWhile_keep:
  "s \<noteq> [] \<Longrightarrow> \<not> P (last s) \<Longrightarrow> dropWhile P s \<noteq> [] \<and> last (dropWhile P s) = last s"
  by (induction s) (auto split: if_splits)

lemma no_trail_collapse: "no_trail s \<Longrightarrow> no_trail (collapse_spaces s)"
proof (induction s rule: collapse_spaces.induct)
  case 1
  show ?case by (simp add: no_trail_def)
next
  case (2 c cs)
  show ?case
  proof (cases "cs = []")
    case True
    then show ?thesis using 2(3) by (auto simp: no_trail_def)
  next
    case False
    then have l: "\<not> isspace (last cs)" using 2(3) by (simp add: no_trail_def)
    show ?thesis
    proof (cases "isspace c")
      case True
      have d: "dropWhile isspace cs \<noteq> [] \<and> last (dropWhile isspace cs) = last cs"
        using False l by (rule last_dropWhile_keep)
      then have "no_trail (dropWhile isspace cs)" using l by (simp add: no_trail_def)
      then have nt: "no_trail (collapse_spaces (dropWhile isspace cs))" using True 2(1) by simp
      have tne: "collapse_spaces (dropWhile isspace cs) \<noteq> []"
        using d by (simp only: collapse_spaces_Nil_iff not_False_eq_True)
      have e: "collapse_spaces (c # cs) = CHR '' '' # collapse_spaces (dropWhile isspace cs)"
        using True by simp
      have "\<not> isspace (last (collapse_spaces (dropWhile isspace cs)))"
        using nt tne unfolding no_trail_def by blast
      moreover have "last (CHR '' '' # collapse_spaces (dropWhile isspace cs))
          = last (collapse_spaces (dropWhile isspace cs))"
        using tne by (rule last_ConsR)
      ultimately show ?thesis unfolding e no_trail_def by metis
    next
      case c: False
      have "no_trail cs" using l by (simp add: no_trail_def)
      then have "no_trail (collapse_spaces cs)" using c 2(2) by simp
      then show ?thesis using c False by (simp add: no_trail_def collapse_spaces_Nil_iff)
    qed
  qed
qed

lemma no_trail_strip: "no_trail (strip s)"
proof -
  have "no_lead (dropWhile isspace (rev (dropWhile isspace s)))" by (rule no_lead_dropWhile)
  then show ?thesis by (auto simp: strip_def no_lead_def no_trail_def last_rev)
qed

lemma no_lead_strip: "no_lead (strip s)"
proof -
  let ?u = "dropWhile isspace s"
  have u: "no_lead ?u" by (rule no_lead_dropWhile)
  have "rev ?u = takeWhile isspace (rev ?u) @ dropWhile isspace (rev ?u)" by simp
  then have "?u = rev (dropWhile isspace (rev ?u)) @ rev (takeWhile isspace (rev ?u))"
    by (metis rev_append rev_rev_ident)
  then have "?u = strip s @ rev (takeWhile isspace (rev ?u))" by (simp add: strip_def)
  then have "strip s \<noteq> [] \<Longrightarrow> hd ?u = hd (strip s)" by (metis hd_append2)
  moreover have "?u = [] \<Longrightarrow> strip s = []" unfolding strip_def by (simp only: rev.simps dropWhile.simps)
  ultimately show ?thesis using u by (auto simp: no_lead_def)
qed

lemma strip_id: "no_lead s \<Longrightarrow> no_trail s \<Longrightarrow> strip s = s"
proof -
  assume a: "no_lead s" "no_trail s"
  have "no_lead (rev s)" using a(2) by (auto simp: no_lead_def no_trail_def hd_rev)
  then show ?thesis using a(1) by (simp add: strip_def dropWhile_no_lead)
qed

lemma normalize_string_idem:
  "collapse_spaces (strip (collapse_spaces (strip s))) = collapse_spaces (strip s)"
proof -
  have "strip (collapse_spaces (strip s)) = collapse_spaces (strip s)"
    by (intro strip_id no_lead_collapse no_trail_collapse no_lead_strip no_trail_strip)
  then show ?thesis by (simp add: collapse_spaces_idem)
qed

text \<open>
  C7. The normalisation of a company name (text of the cell, stripped, every run of white
  space collapsed to one space) is idempotent: normalising a normalised name gives it
  back. The name \<open>"Acme   Inc. "\<close> normalises to \<open>"Acme Inc."\<close>.
\<close>

theorem normalize_company_idempotent:
  "normalize_company (Some (normalize_company c)) = normalize_company c
   \<and> normalize_company (Some ''Acme   Inc. '') = ''Acme Inc.''"
proof
  show "normalize_company (Some (normalize_company c)) = normalize_company c"
    by (simp add: normalize_company_def astype_str_def normalize_string_idem)
  show "normalize_company (Some ''Acme   Inc. '') = ''Acme Inc.''"
    by (simp add: normalize_company_def astype_str_def strip_def isspace_def)
qed

subsection \<open>Missing headers\<close>

lemma missing_columns_code:
  "missing_columns cols = sort (filter (\<lambda>c. c \<notin> set cols) (remdups REQUIRED_TICKET_COLS))"
proof -
  have "set REQUIRED_TICKET_COLS - set cols = set (filter (\<lambda>c. c \<notin> set cols) (remdups REQUIRED_TICKET_COLS))"
    by auto
  then show ?thesis
    unfolding missing_columns_def
    by (simp only: sorted_list_of_set_sort_remdups remdups_filter remdups_remdups)
qed

text \<open>
  C6. An upload named \<open>*.csv\<close> whose header lacks a required column fails with the
  \<open>Missing columns\<close> error that carries exactly the missing required names, sorted and
  without repetition, and leaves the store as it was.
\<close>

theorem missing_columns_rejected:
  assumes "endswith (lower (filename u)) ''.csv''"
    and "\<not> set REQUIRED_TICKET_COLS \<subseteq> set (columns u)"
  shows "upload_tickets st u = (st, Inl (MissingColumns (missing_columns (columns u))))
       \<and> set (missing_columns (columns u)) = set REQUIRED_TICKET_COLS - set (columns u)
       \<and> sorted (missing_columns (columns u))
       \<and> distinct (missing_columns (columns u))"
proof -
  have "set REQUIRED_TICKET_COLS - set (columns u) \<noteq> {}" using assms(2) by auto
  then have "upload_tickets st u = (st, Inl (MissingColumns (missing_columns (columns u))))"
    using assms(1) by (simp add: upload_tickets_def)
  then show ?thesis by (simp add: missing_columns_def)
qed

subsection \<open>The stored ticket table\<close>

lemma cast_column_all2:
  "cast_column cs = Inr ns \<Longrightarrow> list_all2 (\<lambda>c n. reopen_of c = Inr n) cs ns"
  by (induction cs arbitrary: ns) (auto split: sum.splits)

lemma new_tickets_origin:
  assumes "new_tickets u = Inr df" and "t \<in> set df"
  shows "\<exists>r \<in> set (rows u). c_status r = Some ''Permanently Closed''
           \<and> reopen_of (c_reopen_count r) = Inr (reopen_count t)
           \<and> t = to_ticket (columns u) r (reopen_count t)"
proof -
  let ?rs = "closed_rows (rows u)"
  from assms(1) obtain ns where ns: "cast_column (map c_reopen_count ?rs) = Inr ns"
    and df: "df = map (\<lambda>(r, n). to_ticket (columns u) r n) (zip ?rs ns)"
    by (auto simp: new_tickets_def Let_def split: sum.splits)
  from assms(2) df obtain r n where rn: "(r, n) \<in> set (zip ?rs ns)"
    and t: "t = to_ticket (columns u) r n" by auto
  have a: "list_all2 (\<lambda>c n. reopen_of c = Inr n) (map c_reopen_count ?rs) ns"
    using ns by (rule cast_column_all2)
  from rn obtain i where i: "i < length ?rs" "i < length ns" "r = ?rs ! i" "n = ns ! i"
    by (auto simp: set_zip)
  have "reopen_of (c_reopen_count r) = Inr n"
    using a i by (auto simp: list_all2_conv_all_nth)
  moreover have "r \<in> set ?rs" using rn by (rule set_zip_leftD)
  then have "r \<in> set (rows u)" "c_status r = Some ''Permanently Closed''"
    by (auto simp: closed_rows_def)
  moreover have "reopen_count t = n" using t by (simp add: to_ticket_def)
  ultimately show ?thesis using t by auto
qed

lemma new_tickets_status:
  assumes "new_tickets u = Inr df" and "t \<in> set df"
  shows "status t = Some ''Permanently Closed''"
proof -
  from new_tickets_origin[OF assms] obtain r where
    "c_status r = Some ''Permanently Closed''" "t = to_ticket (columns u) r (reopen_count t)"
    by blast
  then show ?thesis by (metis ticket.select_convs(3) to_ticket_def)
qed

lemma set_drop_duplicates_last: "set (drop_duplicates_last rs) \<subseteq> set rs"
  by (induction rs) auto

lemma set_upsert: "set (upsert cur df) \<subseteq> set cur \<union> set df"
  using set_drop_duplicates_last[of "sort_values (cur @ df)"]
  by (simp add: upsert_def sort_values_def)

lemma upload_tickets_success:
  assumes "upload_tickets st u = (st', Inr s)"
  obtains df where "new_tickets u = Inr df"
    and "t_rows (cur_table st') = upsert (t_rows (cur_table st)) df"
    and "tickets_stored s = length (upsert (t_rows (cur_table st)) df)"
    and "new_rows s = length df"
  using assms
  by (auto simp: upload_tickets_def Let_def cur_table_def split: if_splits sum.splits)

lemma upload_tickets_failure: "upload_tickets st u = (st', Inl e) \<Longrightarrow> st' = st"
  by (auto simp: upload_tickets_def Let_def split: if_splits sum.splits)

lemma closed_only_step: "closed_only st \<Longrightarrow> closed_only (fst (upload_tickets st u))"
proof -
  assume c: "closed_only st"
  obtain st' res where r: "upload_tickets st u = (st', res)" by (cases "upload_tickets st u")
  show ?thesis
  proof (cases res)
    case (Inl e)
    then show ?thesis using r c upload_tickets_failure by fastforce
  next
    case (Inr s)
    then obtain df where df: "new_tickets u = Inr df"
      and rows: "t_rows (cur_table st') = upsert (t_rows (cur_table st)) df"
      using r by (auto elim: upload_tickets_success)
    have "\<forall>t \<in> set (t_rows (cur_table st')). status t = Some ''Permanently Closed''"
    proof
      fix t assume "t \<in> set (t_rows (cur_table st'))"
      then have "t \<in> set (t_rows (cur_table st)) \<or> t \<in> set df"
        using rows set_upsert by fastforce
      then show "status t = Some ''Permanently Closed''"
        using c new_tickets_status[OF df] by (auto simp: closed_only_def)
    qed
    then show ?thesis using r by (simp add: closed_only_def)
  qed
qed

lemma closed_only_upload_all: "closed_only st \<Longrightarrow> closed_only (upload_all st us)"
  unfolding upload_all_def
  by (induction us arbitrary: st) (auto simp: closed_only_step)

lemma closed_only_empty: "closed_only empty_store"
  by (simp add: closed_only_def empty_store_def cur_table_def)

text \<open>
  C8. After any sequence of ticket uploads into an empty data directory, every stored
  ticket row has the status \<open>Permanently Closed\<close>; and an upload into a store with this
  property gives a store with this property.
\<close>

theorem only_closed_tickets_stored:
  "closed_only (upload_all empty_store us)
   \<and> (closed_only st \<longrightarrow> closed_only (fst (upload_tickets st u)))"
  by (simp add: closed_only_upload_all closed_only_empty closed_only_step)

lemma required_expected: "set REQUIRED_TICKET_COLS - set EXPECTED_TICKET_COLS = {}"
  by (simp add: REQUIRED_TICKET_COLS_def EXPECTED_TICKET_COLS_def)

lemma lower_ex: "lower ''tickets.CSV'' = ''tickets.csv''"
  by code_simp

lemma ex_upload_csv: "endswith (lower (filename (ex_upload rs))) ''.csv''"
  by (simp add: ex_upload_def endswith_def lower_ex)

lemma ex_upload_tickets:
  "new_tickets (ex_upload rs) = Inr df \<Longrightarrow>
   t_rows (cur_table (fst (upload_tickets st (ex_upload rs)))) = upsert (t_rows (cur_table st)) df"
  using ex_upload_csv[of rs] required_expected
  by (simp add: upload_tickets_def Let_def cur_table_def ex_upload_def)

lemma ex_new_tickets:
  "new_tickets (ex_upload [ex_row, ex_open_row]) = Inr [to_ticket EXPECTED_TICKET_COLS ex_row 2]"
  by (simp add: new_tickets_def closed_rows_def ex_upload_def ex_row_def ex_open_row_def
      reopen_of_def to_numeric_def fillna_def isnan_def astype_int_def trunc_def int64_def)

theorem only_closed_tickets_stored_witness:
  "t_rows (cur_table (upload_all empty_store [ex_upload [ex_row, ex_open_row]]))
     = [to_ticket EXPECTED_TICKET_COLS ex_row 2]
   \<and> closed_only (upload_all empty_store [ex_upload [ex_row, ex_open_row]])
   \<and> status (to_ticket EXPECTED_TICKET_COLS ex_row 2) = Some ''Permanently Closed''"
proof -
  have "t_rows (cur_table (upload_all empty_store [ex_upload [ex_row, ex_open_row]]))
     = [to_ticket EXPECTED_TICKET_COLS ex_row 2]"
    unfolding upload_all_def fold_simps id_o o_id ex_upload_tickets[OF ex_new_tickets]
    by (simp add: upsert_def sort_values_def empty_store_def cur_table_def)
  then show ?thesis
    using only_closed_tickets_stored[of "[ex_upload [ex_row, ex_open_row]]" empty_store "ex_upload []"]
    by (simp add: closed_only_def)
qed

lemma ex_missing: "missing_columns (columns ex_upload_no_status) = [''Created'', ''Status'']"
  unfolding missing_columns_code REQUIRED_TICKET_COLS_def ex_upload_no_status_def
  by code_simp

theorem missing_columns_rejected_witness:
  "endswith (lower (filename ex_upload_no_status)) ''.csv''
   \<and> \<not> set REQUIRED_TICKET_COLS \<subseteq> set (columns ex_upload_no_status)
   \<and> upload_tickets (ex_store ex_ticket (Fin 240)) ex_upload_no_status
       = (ex_store ex_ticket (Fin 240), Inl (MissingColumns [''Created'', ''Status'']))"
proof -
  have a: "endswith (lower (filename ex_upload_no_status)) ''.csv''"
    by (simp add: ex_upload_no_status_def endswith_def lower_def)
  have b: "\<not> set REQUIRED_TICKET_COLS \<subseteq> set (columns ex_upload_no_status)"
    by (simp add: REQUIRED_TICKET_COLS_def ex_upload_no_status_def)
  show ?thesis
    using missing_columns_rejected[OF a b, of "ex_store ex_ticket (Fin 240)"] a b
    by (simp add: ex_missing)
qed

subsection \<open>The reopen count\<close>

lemma reopen_of_cases:
  "reopen_of Blank = Inr 0"
  "reopen_of (NotNumeric s) = Inr 0"
  "reopen_of (Numeric NaN) = Inr 0"
  "int64 (trunc x) \<Longrightarrow> reopen_of (Numeric (Fin x)) = Inr (trunc x)"
  by (simp_all add: reopen_of_def to_numeric_def fillna_def isnan_def astype_int_def trunc_def int64_def)

lemma trunc_negative: "x \<le> - 1 \<Longrightarrow> trunc x < 0"
  by (simp add: trunc_def)

lemma trunc_nonneg: "- 1 < x \<Longrightarrow> 0 \<le> trunc x"
  by (simp add: trunc_def)

lemma reopen_of_int64: "reopen_of c = Inr n \<Longrightarrow> int64 n"
  by (auto simp: reopen_of_def astype_int_def int64_def split: npfloat.splits if_splits)

text \<open>
  C5. After a successful upload every stored row is a row stored before or comes from an
  uploaded \<open>Permanently Closed\<close> row, and then its \<open>reopen_count\<close> is the int64 integer
  that line 109 computes from the uploaded cell: 0 for an empty cell and for a text that
  is not a number, and, for a number whose truncation towards zero lies in the int64
  range, this truncation, which is negative from -1 downwards and at least 0 above -1.
  Nothing is said of a number outside the int64 range, which the cast does not check.
\<close>

theorem stored_reopen_count:
  assumes "upload_tickets st u = (st', Inr s)" and "t \<in> set (t_rows (cur_table st'))"
  shows "(t \<in> set (t_rows (cur_table st))
          \<or> (\<exists>r \<in> set (rows u). c_status r = Some ''Permanently Closed''
                \<and> t = to_ticket (columns u) r (reopen_count t)
                \<and> reopen_of (c_reopen_count r) = Inr (reopen_count t)
                \<and> int64 (reopen_count t)))
       \<and> reopen_of Blank = Inr 0
       \<and> reopen_of (NotNumeric txt) = Inr 0
       \<and> (int64 (trunc x) \<longrightarrow> reopen_of (Numeric (Fin x)) = Inr (trunc x))
       \<and> (x \<le> - 1 \<longrightarrow> trunc x < 0)
       \<and> (- 1 < x \<longrightarrow> 0 \<le> trunc x)"
proof -
  from assms(1) obtain df where df: "new_tickets u = Inr df"
    and rows: "t_rows (cur_table st') = upsert (t_rows (cur_table st)) df"
    by (rule upload_tickets_success)
  have "t \<in> set (t_rows (cur_table st)) \<or> t \<in> set df"
    using assms(2) rows set_upsert by fastforce
  then have "t \<in> set (t_rows (cur_table st))
          \<or> (\<exists>r \<in> set (rows u). c_status r = Some ''Permanently Closed''
                \<and> t = to_ticket (columns u) r (reopen_count t)
                \<and> reopen_of (c_reopen_count r) = Inr (reopen_count t)
                \<and> int64 (reopen_count t))"
    using new_tickets_origin[OF df] reopen_of_int64 by blast
  then show ?thesis
    by (simp add: reopen_of_cases trunc_negative trunc_nonneg)
qed

lemma ex_new_blank:
  "new_tickets (ex_upload [ex_blank_row]) = Inr [to_ticket EXPECTED_TICKET_COLS ex_blank_row 0]"
  by (simp add: new_tickets_def closed_rows_def ex_upload_def ex_row_def ex_blank_row_def
      reopen_of_def to_numeric_def fillna_def isnan_def astype_int_def trunc_def int64_def)

lemma ex_new_negative:
  "new_tickets (ex_upload [ex_negative_row]) = Inr [to_ticket EXPECTED_TICKET_COLS ex_negative_row (- 3)]"
  by (simp add: new_tickets_def closed_rows_def ex_upload_def ex_row_def ex_negative_row_def
      reopen_of_def to_numeric_def fillna_def isnan_def astype_int_def trunc_def int64_def)

lemma upsert_single: "upsert [] [t] = [t]"
  by (simp add: upsert_def sort_values_def)

lemma cur_table_empty: "t_rows (cur_table empty_store) = []"
  by (simp add: cur_table_def empty_store_def)

lemma ex_upload_result:
  "new_tickets (ex_upload rs) = Inr df \<Longrightarrow>
   upload_tickets st (ex_upload rs) =
     (fst (upload_tickets st (ex_upload rs)),
      Inr \<lparr> tickets_stored = length (upsert (t_rows (cur_table st)) df), new_rows = length df \<rparr>)"
  using ex_upload_csv[of rs] required_expected
  by (simp add: upload_tickets_def Let_def ex_upload_def)

theorem stored_reopen_count_witness:
  "upload_tickets empty_store (ex_upload [ex_blank_row])
     = (fst (upload_tickets empty_store (ex_upload [ex_blank_row])),
        Inr \<lparr> tickets_stored = 1, new_rows = 1 \<rparr>)
   \<and> t_rows (cur_table (fst (upload_tickets empty_store (ex_upload [ex_blank_row]))))
       = [to_ticket EXPECTED_TICKET_COLS ex_blank_row 0]
   \<and> c_reopen_count ex_blank_row = Blank
   \<and> reopen_count (to_ticket EXPECTED_TICKET_COLS ex_blank_row 0) = 0
   \<and> int64 (trunc 2.7) \<and> reopen_of (Numeric (Fin 2.7)) = Inr 2
   \<and> (- 3 :: real) \<le> - 1 \<and> trunc (- 3) < 0
   \<and> (- 1 :: real) < 2.7 \<and> 0 \<le> trunc 2.7"
proof -
  let ?st = "fst (upload_tickets empty_store (ex_upload [ex_blank_row]))"
  have r: "t_rows (cur_table ?st) = [to_ticket EXPECTED_TICKET_COLS ex_blank_row 0]"
    unfolding ex_upload_tickets[OF ex_new_blank] cur_table_empty by (rule upsert_single)
  have u: "upload_tickets empty_store (ex_upload [ex_blank_row])
      = (?st, Inr \<lparr> tickets_stored = 1, new_rows = 1 \<rparr>)"
    using ex_upload_result[OF ex_new_blank, of empty_store]
    by (simp add: cur_table_empty upsert_single)
  have m: "to_ticket EXPECTED_TICKET_COLS ex_blank_row 0 \<in> set (t_rows (cur_table ?st))"
    by (simp add: r)
  have t: "trunc 2.7 = 2" by (simp add: trunc_def)
  have t3: "trunc (- 3) = - 3" by (simp add: trunc_def)
  have i: "int64 (trunc 2.7)" by (simp add: t int64_def)
  show ?thesis
    using stored_reopen_count[OF u m, of "''n/a''" "2.7"]
          stored_reopen_count[OF u m, of "''n/a''" "- 3"] u r i t t3
    by (simp add: to_ticket_def ex_blank_row_def)
qed

theorem stored_reopen_count_counterexample:
  "t_rows (cur_table (fst (upload_tickets empty_store (ex_upload [ex_negative_row]))))
       = [to_ticket EXPECTED_TICKET_COLS ex_negative_row (- 3)]
   \<and> c_reopen_count ex_negative_row = Numeric (Fin (- 3))
   \<and> reopen_count (to_ticket EXPECTED_TICKET_COLS ex_negative_row (- 3)) < 0"
proof -
  have "t_rows (cur_table (fst (upload_tickets empty_store (ex_upload [ex_negative_row]))))
       = [to_ticket EXPECTED_TICKET_COLS ex_negative_row (- 3)]"
    unfolding ex_upload_tickets[OF ex_new_negative] cur_table_empty by (rule upsert_single)
  then show ?thesis by (simp add: to_ticket_def ex_negative_row_def)
qed

subsection \<open>The upsert\<close>

lemma drop_duplicates_last_filter:
  "filter (\<lambda>r. issue_key r = k) (drop_duplicates_last ys) =
     (if k \<in> issue_key ` set ys then [last (filter (\<lambda>r. issue_key r = k) ys)] else [])"
proof (induction ys)
  case Nil
  show ?case by simp
next
  case (Cons r rs)
  show ?case
  proof (cases "issue_key r \<in> issue_key ` set rs")
    case True
    show ?thesis
    proof (cases "issue_key r = k")
      case k: True
      then have "filter (\<lambda>r. issue_key r = k) rs \<noteq> []"
        using True by (auto simp: filter_empty_conv)
      then show ?thesis using True k Cons by simp
    next
      case False
      then show ?thesis using True Cons by auto
    qed
  next
    case False
    show ?thesis
    proof (cases "issue_key r = k")
      case k: True
      then have "filter (\<lambda>r. issue_key r = k) rs = []"
        using False by (fastforce simp: filter_empty_conv image_iff)
      then show ?thesis using False k Cons by auto
    next
      case n: False
      then show ?thesis using False Cons by auto
    qed
  qed
qed

lemma distinct_drop_duplicates_last: "distinct (map issue_key (drop_duplicates_last ys))"
proof (induction ys)
  case Nil
  show ?case by simp
next
  case (Cons r rs)
  have "issue_key ` set (drop_duplicates_last rs) \<subseteq> issue_key ` set rs"
    using set_drop_duplicates_last[of rs] by blast
  then show ?case using Cons by auto
qed

lemma sorted_last_max:
  assumes "sorted (map f l)" and "x \<in> set l"
  shows "f x \<le> f (last l)"
proof -
  from assms(2) obtain i where i: "i < length l" "l ! i = x" by (auto simp: in_set_conv_nth)
  then have ne: "l \<noteq> []" by auto
  have "map f l ! i \<le> map f l ! (length l - 1)"
    using assms(1) i by (intro sorted_nth_mono) auto
  then show ?thesis using i ne by (simp add: last_conv_nth)
qed

lemma last_filter_keep: "l \<noteq> [] \<Longrightarrow> P (last l) \<Longrightarrow> last (filter P l) = last l"
  by (induction l rule: rev_induct) auto

lemma last_sort_key:
  assumes "ws \<noteq> []"
  shows "(\<forall>x \<in> set ws. f x \<le> f (last (sort_key f ws)))
       \<and> last (sort_key f ws) = last (filter (\<lambda>x. f x = f (last (sort_key f ws))) ws)"
proof -
  let ?l = "sort_key f ws"
  have s: "sorted (map f ?l)" by simp
  have "\<forall>x \<in> set ?l. f x \<le> f (last ?l)" using sorted_last_max[OF s] by blast
  then have 1: "\<forall>x \<in> set ws. f x \<le> f (last ?l)" by simp
  have "last (filter (\<lambda>x. f x = f (last ?l)) ?l) = last ?l"
  proof (rule last_filter_keep)
    show "?l \<noteq> []" using assms length_sort[of f ws] by (metis length_0_conv)
  qed simp
  then have 2: "last ?l = last (filter (\<lambda>x. f x = f (last ?l)) ws)"
    by (simp add: sort_key_stable)
  show ?thesis using 1 2 by blast
qed

lemma stamp_order_inj: "stamp_order a = stamp_order b \<longleftrightarrow> a = b"
  by (cases a; cases b) (auto simp: stamp_order_def)

lemma stamp_order_le:
  "stamp_order a \<le> stamp_order b \<longleftrightarrow> (b = None \<or> (\<exists>x y. a = Some x \<and> b = Some y \<and> x \<le> y))"
  by (cases a; cases b) (auto simp: stamp_order_def)

lemma sort_order_same_key:
  assumes "issue_key x = issue_key y"
  shows "sort_order x \<le> sort_order y \<longleftrightarrow> stamp_order (resolved x) \<le> stamp_order (resolved y)"
    and "sort_order x = sort_order y \<longleftrightarrow> resolved x = resolved y"
    and "sort_order x < sort_order y \<longleftrightarrow> stamp_order (resolved x) < stamp_order (resolved y)"
  using assms by (auto simp: sort_order_def stamp_order_inj)

lemma upsert_kept:
  assumes "r \<in> set (cur @ df)"
  obtains kept where
    "filter (\<lambda>x. issue_key x = issue_key r) (upsert cur df) = [kept]"
    "issue_key kept = issue_key r"
    "\<forall>x \<in> set (cur @ df). issue_key x = issue_key r \<longrightarrow>
        stamp_order (resolved x) \<le> stamp_order (resolved kept)"
    "kept = last (filter (\<lambda>x. issue_key x = issue_key r \<and> resolved x = resolved kept) (cur @ df))"
proof -
  define xs where "xs = cur @ df"
  define k where "k = issue_key r"
  define ws where "ws = filter (\<lambda>x. issue_key x = k) xs"
  define kept where "kept = last (sort_key sort_order ws)"
  have rin: "r \<in> set xs" using assms by (simp add: xs_def)
  then have "r \<in> set ws" by (simp add: ws_def k_def)
  then have ne: "ws \<noteq> []" by auto
  have sne: "sort_key sort_order ws \<noteq> []"
    using ne length_sort[of sort_order ws] by (metis length_0_conv)
  have "kept \<in> set (sort_key sort_order ws)" unfolding kept_def using sne by (rule last_in_set)
  then have kin: "kept \<in> set ws" by simp
  then have 2: "issue_key kept = k" by (simp add: ws_def)
  have u: "upsert cur df = drop_duplicates_last (sort_key sort_order xs)"
    by (simp add: upsert_def sort_values_def xs_def)
  have "k \<in> issue_key ` set (sort_key sort_order xs)" using rin by (simp add: k_def)
  then have "filter (\<lambda>x. issue_key x = k) (upsert cur df)
      = [last (filter (\<lambda>x. issue_key x = k) (sort_key sort_order xs))]"
    unfolding u drop_duplicates_last_filter by (simp only: if_True)
  then have 1: "filter (\<lambda>x. issue_key x = k) (upsert cur df) = [kept]"
    by (simp only: filter_sort kept_def ws_def)
  from last_sort_key[OF ne, of sort_order]
  have m: "\<forall>x \<in> set ws. sort_order x \<le> sort_order kept"
    and l: "kept = last (filter (\<lambda>x. sort_order x = sort_order kept) ws)"
    unfolding kept_def by blast+
  have 3: "\<forall>x \<in> set xs. issue_key x = k \<longrightarrow>
      stamp_order (resolved x) \<le> stamp_order (resolved kept)"
  proof (intro ballI impI)
    fix x assume x: "x \<in> set xs" "issue_key x = k"
    then have "x \<in> set ws" by (simp add: ws_def)
    then have "sort_order x \<le> sort_order kept" using m by blast
    moreover have "issue_key x = issue_key kept" using x(2) 2 by simp
    ultimately show "stamp_order (resolved x) \<le> stamp_order (resolved kept)"
      by (simp only: sort_order_same_key(1))
  qed
  have "filter (\<lambda>x. sort_order x = sort_order kept) ws
      = filter (\<lambda>x. issue_key x = k \<and> resolved x = resolved kept) xs"
    unfolding ws_def filter_filter
    by (rule filter_cong[OF refl]) (use 2 sort_order_same_key(2)[of _ kept] in auto)
  then have 4: "kept = last (filter (\<lambda>x. issue_key x = k \<and> resolved x = resolved kept) xs)"
    using l by simp
  show ?thesis
    using that[of kept] 1 2 3 4 unfolding k_def xs_def by blast
qed

lemma distinct_upsert: "distinct (map issue_key (upsert cur df))"
  by (simp add: upsert_def distinct_drop_duplicates_last)

lemma upsert_pair:
  assumes "issue_key a = issue_key b"
  shows "upsert [a] [b] = (if stamp_order (resolved a) \<le> stamp_order (resolved b) then [b] else [a])"
  using assms sort_order_same_key(1)[OF assms]
  by (simp add: upsert_def sort_values_def)

lemma ex_new_row:
  "new_tickets (ex_upload [ex_row]) = Inr [to_ticket EXPECTED_TICKET_COLS ex_row 2]"
  by (simp add: new_tickets_def closed_rows_def ex_upload_def ex_row_def
      reopen_of_def to_numeric_def fillna_def isnan_def astype_int_def trunc_def int64_def)

lemma ex_new_earlier:
  "new_tickets (ex_upload [ex_earlier_row]) = Inr [to_ticket EXPECTED_TICKET_COLS ex_earlier_row 2]"
  by (simp add: new_tickets_def closed_rows_def ex_upload_def ex_row_def ex_earlier_row_def
      reopen_of_def to_numeric_def fillna_def isnan_def astype_int_def trunc_def int64_def)

lemma ex_new_unresolved:
  "new_tickets (ex_upload [ex_unresolved_row]) = Inr [to_ticket EXPECTED_TICKET_COLS ex_unresolved_row 2]"
  by (simp add: new_tickets_def closed_rows_def ex_upload_def ex_row_def ex_unresolved_row_def
      reopen_of_def to_numeric_def fillna_def isnan_def astype_int_def trunc_def int64_def)

lemma ex_stored_rows: "t_rows (cur_table ex_stored) = [to_ticket EXPECTED_TICKET_COLS ex_row 2]"
  unfolding ex_stored_def ex_upload_tickets[OF ex_new_row] cur_table_empty by (rule upsert_single)

lemma ex_resolved:
  "resolved (to_ticket EXPECTED_TICKET_COLS ex_row 2) = Some (180 * (60 * 10 ^ 9))"
  "resolved (to_ticket EXPECTED_TICKET_COLS ex_earlier_row 2) = Some (120 * (60 * 10 ^ 9))"
  "resolved (to_ticket EXPECTED_TICKET_COLS ex_unresolved_row 2) = None"
  "issue_key (to_ticket EXPECTED_TICKET_COLS ex_row 2) = Some ''SUP-1''"
  "issue_key (to_ticket EXPECTED_TICKET_COLS ex_earlier_row 2) = Some ''SUP-1''"
  "issue_key (to_ticket EXPECTED_TICKET_COLS ex_unresolved_row 2) = Some ''SUP-1''"
  by (simp_all add: to_ticket_def ex_row_def ex_earlier_row_def ex_unresolved_row_def)

lemma ex_upsert_earlier:
  "upsert (t_rows (cur_table ex_stored)) [to_ticket EXPECTED_TICKET_COLS ex_earlier_row 2]
     = [to_ticket EXPECTED_TICKET_COLS ex_row 2]"
  unfolding ex_stored_rows
  by (simp add: upsert_pair ex_resolved stamp_order_def)

lemma ex_upsert_unresolved:
  "upsert (t_rows (cur_table ex_stored)) [to_ticket EXPECTED_TICKET_COLS ex_unresolved_row 2]
     = [to_ticket EXPECTED_TICKET_COLS ex_unresolved_row 2]"
  unfolding ex_stored_rows
  by (simp add: upsert_pair ex_resolved stamp_order_def)

text \<open>
  C4. After a successful upload the stored table has at most one row for each
  \<open>issue_key\<close>. For every row of the concatenation of the stored rows and the new batch,
  the one stored row with its key has the greatest \<open>resolved\<close> among the rows of this key,
  a null \<open>resolved\<close> counting as later than every timestamp, and among the rows of this
  key with this \<open>resolved\<close> it is the last one of the concatenation.
\<close>

theorem upsert_keeps_latest:
  assumes "upload_tickets st u = (st', Inr s)" and "new_tickets u = Inr df"
    and "r \<in> set (t_rows (cur_table st) @ df)"
  shows "distinct (map issue_key (t_rows (cur_table st')))
       \<and> (\<exists>kept. filter (\<lambda>x. issue_key x = issue_key r) (t_rows (cur_table st')) = [kept]
            \<and> (resolved kept = None
                 \<or> (\<exists>a b. resolved r = Some a \<and> resolved kept = Some b \<and> a \<le> b))
            \<and> kept = last (filter (\<lambda>x. issue_key x = issue_key r \<and> resolved x = resolved kept)
                              (t_rows (cur_table st) @ df)))"
proof -
  from assms(1) obtain df' where "new_tickets u = Inr df'"
    and "t_rows (cur_table st') = upsert (t_rows (cur_table st)) df'"
    by (rule upload_tickets_success)
  then have rows: "t_rows (cur_table st') = upsert (t_rows (cur_table st)) df"
    using assms(2) by simp
  from upsert_kept[OF assms(3)] obtain kept where
    k: "filter (\<lambda>x. issue_key x = issue_key r) (upsert (t_rows (cur_table st)) df) = [kept]"
      "\<forall>x \<in> set (t_rows (cur_table st) @ df). issue_key x = issue_key r \<longrightarrow>
          stamp_order (resolved x) \<le> stamp_order (resolved kept)"
      "kept = last (filter (\<lambda>x. issue_key x = issue_key r \<and> resolved x = resolved kept)
                      (t_rows (cur_table st) @ df))"
    by blast
  have "stamp_order (resolved r) \<le> stamp_order (resolved kept)" using k(2) assms(3) by blast
  then have "resolved kept = None
      \<or> (\<exists>a b. resolved r = Some a \<and> resolved kept = Some b \<and> a \<le> b)"
    by (simp only: stamp_order_le)
  then show ?thesis unfolding rows using k(1,3) distinct_upsert by blast
qed

theorem upsert_keeps_latest_witness:
  "upload_tickets ex_stored (ex_upload [ex_earlier_row])
     = (fst (upload_tickets ex_stored (ex_upload [ex_earlier_row])),
        Inr \<lparr> tickets_stored = 1, new_rows = 1 \<rparr>)
   \<and> new_tickets (ex_upload [ex_earlier_row]) = Inr [to_ticket EXPECTED_TICKET_COLS ex_earlier_row 2]
   \<and> t_rows (cur_table ex_stored) = [to_ticket EXPECTED_TICKET_COLS ex_row 2]
   \<and> resolved (to_ticket EXPECTED_TICKET_COLS ex_row 2) = Some (180 * (60 * 10 ^ 9))
   \<and> resolved (to_ticket EXPECTED_TICKET_COLS ex_earlier_row 2) = Some (120 * (60 * 10 ^ 9))
   \<and> t_rows (cur_table (fst (upload_tickets ex_stored (ex_upload [ex_earlier_row]))))
       = [to_ticket EXPECTED_TICKET_COLS ex_row 2]
   \<and> distinct (map issue_key
        (t_rows (cur_table (fst (upload_tickets ex_stored (ex_upload [ex_earlier_row]))))))"
proof -
  let ?st = "fst (upload_tickets ex_stored (ex_upload [ex_earlier_row]))"
  have u: "upload_tickets ex_stored (ex_upload [ex_earlier_row])
      = (?st, Inr \<lparr> tickets_stored = 1, new_rows = 1 \<rparr>)"
    using ex_upload_result[OF ex_new_earlier, of ex_stored] by (simp add: ex_upsert_earlier)
  have r: "t_rows (cur_table ?st) = [to_ticket EXPECTED_TICKET_COLS ex_row 2]"
    unfolding ex_upload_tickets[OF ex_new_earlier] by (rule ex_upsert_earlier)
  have m: "to_ticket EXPECTED_TICKET_COLS ex_earlier_row 2
      \<in> set (t_rows (cur_table ex_stored) @ [to_ticket EXPECTED_TICKET_COLS ex_earlier_row 2])"
    by simp
  show ?thesis
    using upsert_keeps_latest[OF u ex_new_earlier m] u r ex_new_earlier ex_stored_rows ex_resolved
    by simp
qed

theorem upsert_keeps_latest_counterexample:
  "t_rows (cur_table ex_stored) = [to_ticket EXPECTED_TICKET_COLS ex_row 2]
   \<and> new_tickets (ex_upload [ex_unresolved_row])
       = Inr [to_ticket EXPECTED_TICKET_COLS ex_unresolved_row 2]
   \<and> issue_key (to_ticket EXPECTED_TICKET_COLS ex_row 2)
       = issue_key (to_ticket EXPECTED_TICKET_COLS ex_unresolved_row 2)
   \<and> resolved (to_ticket EXPECTED_TICKET_COLS ex_row 2) = Some (180 * (60 * 10 ^ 9))
   \<and> t_rows (cur_table (fst (upload_tickets ex_stored (ex_upload [ex_unresolved_row]))))
       = [to_ticket EXPECTED_TICKET_COLS ex_unresolved_row 2]
   \<and> resolved (to_ticket EXPECTED_TICKET_COLS ex_unresolved_row 2) = None"
proof -
  have "t_rows (cur_table (fst (upload_tickets ex_stored (ex_upload [ex_unresolved_row]))))
       = [to_ticket EXPECTED_TICKET_COLS ex_unresolved_row 2]"
    unfolding ex_upload_tickets[OF ex_new_unresolved] by (rule ex_upsert_unresolved)
  then show ?thesis using ex_stored_rows ex_new_unresolved ex_resolved by simp
qed

text \<open>
  C10. In the sorted concatenation of a ticket upload, a row with a null \<open>resolved\<close> comes
  after every row of the same \<open>issue_key\<close> with a timestamp. So when one of the rows of a
  key has a null \<open>resolved\<close>, the one row stored for this key has a null \<open>resolved\<close>, also
  when another row of the key has a timestamp.
\<close>

theorem null_resolved_wins:
  assumes "upload_tickets st u = (st', Inr s)" and "new_tickets u = Inr df"
    and "r \<in> set (t_rows (cur_table st) @ df)" and "resolved r = None"
  shows "(i < length (sort_values (t_rows (cur_table st) @ df))
            \<and> j < length (sort_values (t_rows (cur_table st) @ df))
            \<and> issue_key (sort_values (t_rows (cur_table st) @ df) ! i)
                = issue_key (sort_values (t_rows (cur_table st) @ df) ! j)
            \<and> resolved (sort_values (t_rows (cur_table st) @ df) ! i) = None
            \<and> resolved (sort_values (t_rows (cur_table st) @ df) ! j) \<noteq> None
          \<longrightarrow> j < i)
       \<and> (\<exists>kept. filter (\<lambda>x. issue_key x = issue_key r) (t_rows (cur_table st')) = [kept]
            \<and> resolved kept = None)"
proof -
  let ?ys = "sort_values (t_rows (cur_table st) @ df)"
  have s: "sorted (map sort_order ?ys)" by (simp add: sort_values_def)
  have 1: "j < i" if h: "i < length ?ys" "j < length ?ys"
      "issue_key (?ys ! i) = issue_key (?ys ! j)"
      "resolved (?ys ! i) = None" "resolved (?ys ! j) \<noteq> None"
  proof (rule ccontr)
    assume "\<not> j < i"
    then have "i \<le> j" by simp
    then have "map sort_order ?ys ! i \<le> map sort_order ?ys ! j"
      using s h(2) by (intro sorted_nth_mono) simp_all
    then have "sort_order (?ys ! i) \<le> sort_order (?ys ! j)" using h(1,2) by simp
    then have "stamp_order (resolved (?ys ! i)) \<le> stamp_order (resolved (?ys ! j))"
      using h(3) by (simp only: sort_order_same_key(1))
    then show False using h(4,5) by (simp add: stamp_order_le)
  qed
  from assms(1) obtain df' where "new_tickets u = Inr df'"
    and "t_rows (cur_table st') = upsert (t_rows (cur_table st)) df'"
    by (rule upload_tickets_success)
  then have rows: "t_rows (cur_table st') = upsert (t_rows (cur_table st)) df"
    using assms(2) by simp
  from upsert_kept[OF assms(3)] obtain kept where
    k: "filter (\<lambda>x. issue_key x = issue_key r) (upsert (t_rows (cur_table st)) df) = [kept]"
      "\<forall>x \<in> set (t_rows (cur_table st) @ df). issue_key x = issue_key r \<longrightarrow>
          stamp_order (resolved x) \<le> stamp_order (resolved kept)"
    by blast
  have "stamp_order (resolved r) \<le> stamp_order (resolved kept)" using k(2) assms(3) by blast
  then have "resolved kept = None" using assms(4) by (simp add: stamp_order_le)
  then show ?thesis unfolding rows using k(1) 1 by blast
qed

theorem null_resolved_wins_witness:
  "upload_tickets ex_stored (ex_upload [ex_unresolved_row])
     = (fst (upload_tickets ex_stored (ex_upload [ex_unresolved_row])),
        Inr \<lparr> tickets_stored = 1, new_rows = 1 \<rparr>)
   \<and> new_tickets (ex_upload [ex_unresolved_row])
       = Inr [to_ticket EXPECTED_TICKET_COLS ex_unresolved_row 2]
   \<and> resolved (to_ticket EXPECTED_TICKET_COLS ex_unresolved_row 2) = None
   \<and> sort_values (t_rows (cur_table ex_stored) @ [to_ticket EXPECTED_TICKET_COLS ex_unresolved_row 2])
       = [to_ticket EXPECTED_TICKET_COLS ex_row 2, to_ticket EXPECTED_TICKET_COLS ex_unresolved_row 2]
   \<and> resolved (to_ticket EXPECTED_TICKET_COLS ex_row 2) \<noteq> None
   \<and> (0 :: nat) < 1
   \<and> filter (\<lambda>x. issue_key x = issue_key (to_ticket EXPECTED_TICKET_COLS ex_unresolved_row 2))
        (t_rows (cur_table (fst (upload_tickets ex_stored (ex_upload [ex_unresolved_row])))))
       = [to_ticket EXPECTED_TICKET_COLS ex_unresolved_row 2]"
proof -
  let ?st = "fst (upload_tickets ex_stored (ex_upload [ex_unresolved_row]))"
  let ?t = "to_ticket EXPECTED_TICKET_COLS ex_unresolved_row 2"
  have u: "upload_tickets ex_stored (ex_upload [ex_unresolved_row])
      = (?st, Inr \<lparr> tickets_stored = 1, new_rows = 1 \<rparr>)"
    using ex_upload_result[OF ex_new_unresolved, of ex_stored] by (simp add: ex_upsert_unresolved)
  have r: "t_rows (cur_table ?st) = [?t]"
    unfolding ex_upload_tickets[OF ex_new_unresolved] by (rule ex_upsert_unresolved)
  have m: "?t \<in> set (t_rows (cur_table ex_stored) @ [?t])" by simp
  have n: "resolved ?t = None" by (simp add: ex_resolved)
  have so: "sort_values (t_rows (cur_table ex_stored) @ [?t])
      = [to_ticket EXPECTED_TICKET_COLS ex_row 2, ?t]"
    unfolding ex_stored_rows
    using sort_order_same_key(1)[of "to_ticket EXPECTED_TICKET_COLS ex_row 2" ?t]
    by (simp add: sort_values_def ex_resolved stamp_order_def)
  show ?thesis
    using null_resolved_wins[OF u ex_new_unresolved m n, of 1 0] u r so n ex_new_unresolved ex_resolved
    by simp
qed

subsection \<open>What the reports hand to the response\<close>

lemma json_cell_safe: "json_safe (none_cell (replace_inf_cell (iso_cell c)))"
proof (cases c)
  case (CFloat x)
  then show ?thesis
    by (cases x)
       (simp_all add: iso_cell_def replace_inf_cell_def replace_inf_def none_cell_def
          json_safe_def isnan_def isfinite_def)
next
  case (CTime t)
  then show ?thesis
    by (cases t) (simp_all add: iso_cell_def replace_inf_cell_def none_cell_def json_safe_def)
qed (simp_all add: iso_cell_def replace_inf_cell_def none_cell_def json_safe_def)

lemma json_records_safe: "records_safe (json_records out)"
  by (auto simp: records_safe_def json_records_def list_all_iff json_cell_safe)

lemma violations_safe: "violations st = Inr rs \<Longrightarrow> records_safe rs"
  by (auto simp: violations_def Let_def json_records_safe split: sum.splits)

lemma reopens_safe: "reopens st = Inr rs \<Longrightarrow> records_safe rs"
  by (auto simp: reopens_def Let_def json_records_safe split: sum.splits if_splits)

lemma ex_load_after_upload:
  "new_tickets (ex_upload rs) = Inr df \<Longrightarrow>
   load_joined ((fst (upload_tickets st (ex_upload rs))) \<lparr> sla_file := Some (ex_sla res) \<rparr>)
     = Inr (merge_left (upsert (t_rows (cur_table st)) df) (s_rows (ex_sla res)))"
  using ex_upload_csv[of rs] required_expected
  by (simp add: upload_tickets_def Let_def load_joined_def ex_upload_def ex_sla_def)

lemma ex_unresolved_joined:
  "load_joined ex_unresolved_store
     = Inr [join_row (to_ticket EXPECTED_TICKET_COLS ex_unresolved_row 2) (NaN, NaN)]"
proof -
  have n: "crm_company (to_ticket EXPECTED_TICKET_COLS ex_unresolved_row 2) = ''Acme Inc.''"
    by (simp add: to_ticket_def ex_unresolved_row_def ex_row_def normalize_company_def
        astype_str_def strip_def isspace_def)
  have s: "severity (to_ticket EXPECTED_TICKET_COLS ex_unresolved_row 2) = Some ''Severity 1''"
    by (simp add: to_ticket_def ex_unresolved_row_def ex_row_def)
  show ?thesis
    unfolding ex_unresolved_store_def ex_load_after_upload[OF ex_new_unresolved]
      cur_table_empty upsert_single
    by (simp add: merge_left_def merged_targets_def sla_matches_def ex_sla_def n s)
qed

lemma ex_unresolved_fields:
  "assignee (join_row (to_ticket EXPECTED_TICKET_COLS ex_unresolved_row 2) tg) = Some ''bob''"
  "product (join_row (to_ticket EXPECTED_TICKET_COLS ex_unresolved_row 2) tg) = Some ''core''"
  "resolution_minutes (to_ticket EXPECTED_TICKET_COLS ex_unresolved_row 2) = NaN"
  by (simp_all add: join_row_def ticket.defs to_ticket_def ex_unresolved_row_def ex_row_def
      minutes_between_def td_sub_def total_seconds_def)

lemma round2_NaN: "round2 NaN = NaN"
  by (simp add: round2_def frint_def)

text \<open>
  C9. The reports \<open>violations\<close> and \<open>reopens\<close> pass their records through
  \<open>_json_records\<close> (see \<open>violations_safe\<close> and \<open>reopens_safe\<close>), but \<open>assignee_avg\<close> and
  \<open>product_avg\<close> do not: for a stored ticket without a \<open>resolved\<close> time the mean of its
  group is NaN, and the record handed to the response holds this NaN.
\<close>

theorem avg_reports_emit_nan:
  "assignee_avg ex_unresolved_store
     = Inr [[(''assignee'', CStr ''bob''), (''resolution_minutes'', CFloat NaN)]]
   \<and> product_avg ex_unresolved_store
     = Inr [[(''product'', CStr ''core''), (''resolution_minutes'', CFloat NaN)]]
   \<and> \<not> records_safe [[(''assignee'', CStr ''bob''), (''resolution_minutes'', CFloat NaN)]]
   \<and> \<not> records_safe [[(''product'', CStr ''core''), (''resolution_minutes'', CFloat NaN)]]"
  by (simp add: assignee_avg_def product_avg_def ex_unresolved_joined avg_records_def
      group_mean_def group_keys_def List.map_filter_simps ex_unresolved_fields mean_skipna_def
      isnan_def round2_NaN records_safe_def json_safe_def isfinite_def)

end
